theory Spec2Isabelle
  imports Main "HOL-Library.Word"
begin

section \<open>Delivery car: the fail-safe return controller (APP.c)\<close>

text \<open>
  A shallow embedding of the parts of \<^verbatim>\<open>delivery_car/Code/APP/APP.c\<close> that record the
  remote-controlled path and replay it: \<^verbatim>\<open>Save_Move\<close>, \<^verbatim>\<open>UART_Get_Cmd\<close>,
  \<^verbatim>\<open>UART_Get_LCD_msg\<close>, \<^verbatim>\<open>Check_Connection\<close>, \<^verbatim>\<open>Back_Reverse\<close> and
  \<^verbatim>\<open>Obstacle_Detection\<close>, together with the driver functions they call
  (\<^verbatim>\<open>TIMER0.c\<close>, \<^verbatim>\<open>TIMER2.c\<close>, \<^verbatim>\<open>MOTOR.c\<close>, \<^verbatim>\<open>UART.c\<close>, \<^verbatim>\<open>WDT.c\<close>).
  Global variables, static locals and the hardware registers the code reads back are the
  fields of one record; every C function is a function from state to state.
\<close>

subsection \<open>Types and constants\<close>

type_synonym uint8 = "8 word"
type_synonym uint16 = "16 word"

text \<open>\<^verbatim>\<open>struct reverse\<close> (APP_def.h): four bit-fields of widths 3, 3, 16 and 8.\<close>

record reverse =
  rv_mode :: "3 word"
  rv_gear :: "3 word"
  rv_ovfs :: uint16
  rv_tcnt :: uint8

text \<open>APP_def.h: gear limits, command bytes, stack capacity.\<close>

definition MAX_GEAR :: uint8 where [simp]: "MAX_GEAR = 5"
definition MIN_GEAR :: uint8 where [simp]: "MIN_GEAR = 1"

definition NOTHING :: uint8 where [simp]: "NOTHING = 0x30"
definition FORWARD :: uint8 where [simp]: "FORWARD = 0x31"
definition BACKWARD :: uint8 where [simp]: "BACKWARD = 0x32"
definition STOP :: uint8 where [simp]: "STOP = 0x33"
definition STEER_RIGHT :: uint8 where [simp]: "STEER_RIGHT = 0x34"
definition STEER_LEFT :: uint8 where [simp]: "STEER_LEFT = 0x35"
definition GEARUP :: uint8 where [simp]: "GEARUP = 0x36"
definition GEARDOWN :: uint8 where [simp]: "GEARDOWN = 0x37"
definition CLR_SCREEN :: uint8 where [simp]: "CLR_SCREEN = 0x38"
definition SEND_LCD :: uint8 where [simp]: "SEND_LCD = 0x39"
definition UART_STOPCHAR :: uint8 where [simp]: "UART_STOPCHAR = 0x3A"
definition REVERSE :: uint8 where [simp]: "REVERSE = 0x3B"
definition BUZZER_ON :: uint8 where [simp]: "BUZZER_ON = 0x6F"
definition BUZZER_OFF :: uint8 where [simp]: "BUZZER_OFF = 0x66"

definition MAX_MOVES :: nat where [simp]: "MAX_MOVES = 300"

text \<open>MOTOR_def.h: the direction codes that \<^verbatim>\<open>MOTOR_SET_Direction\<close> compares against.\<close>

definition MOTOR_FORWARD :: uint8 where [simp]: "MOTOR_FORWARD = 0"
definition MOTOR_BACKWARD :: uint8 where [simp]: "MOTOR_BACKWARD = 1"
definition MOTOR_STOP :: uint8 where [simp]: "MOTOR_STOP = 2"
definition MOTOR_TURN_RIGHT :: uint8 where [simp]: "MOTOR_TURN_RIGHT = 3"
definition MOTOR_TURN_LEFT :: uint8 where [simp]: "MOTOR_TURN_LEFT = 4"

text \<open>
  What the two H-bridges are driving: which of the five two-motor functions of MOTOR.c
  wrote the control pins last.
\<close>

datatype motion = BothForward | BothBackward | BothStop | TurnRight | TurnLeft

text \<open>
  Calls that reach the drivetrain, in the order they are made: a write of the motor
  control pins, or a write of the speed register \<^verbatim>\<open>OCR2\<close>.
\<close>

datatype act = Motor motion | Speed uint8

text \<open>The functions that are installed as interrupt callbacks.\<close>

datatype ovf_callback = CB_Check_Connection | CB_Back_Reverse

datatype rx_callback = CB_UART_Get_Cmd | CB_UART_Get_LCD_msg

subsection \<open>The state\<close>

record car =
  gear :: uint8
  command :: uint8
  reversed_mode :: uint8
  tcnt :: uint8
  ovfCounts :: uint16
  front_distance :: uint16
  back_distance :: uint16
  front_blocked :: bool
  back_blocked :: bool
  car_connected :: bool
  uart_rx_buffer :: "uint8 list"
  stack :: "reverse list"
  top :: uint8
  Back_Reverse_counter :: uint16
  Check_Connection_counter :: uint16
  TCNT0 :: uint8
  g_TIMER0_Overflow :: uint16
  TIMER0_clocked :: bool
  g_TIMER0_OVF_CallBack :: ovf_callback
  OCR2 :: uint8
  RXCIE :: bool
  g_UART_RXCallBack :: rx_callback
  g_UART_RX_ArraySize :: uint16
  g_UART_Stop_Byte :: uint8
  g_UART_RX_Index :: uint16
  motors :: motion
  buzzer :: bool
  wdt_reset :: bool
  actuator_log :: "act list"

text \<open>
  \<^item> \<open>Back_Reverse_counter\<close> and \<open>Check_Connection_counter\<close> are the
    \<^verbatim>\<open>static volatile uint16 counter\<close> locals of the two overflow callbacks.
  \<^item> \<open>TIMER0_clocked\<close> says whether the clock-select bits of \<^verbatim>\<open>TCCR0\<close> hold the
    configured clock source (\<^verbatim>\<open>TIMER0_Enable\<close>) or \<^verbatim>\<open>TIMER0_NO_CLOCK_SOURCE\<close>
    (\<^verbatim>\<open>TIMER0_Disable\<close>).
  \<^item> \<open>RXCIE\<close> is the receive-complete interrupt enable bit of \<^verbatim>\<open>UCSRB\<close>.
  \<^item> \<open>wdt_reset\<close> becomes true when \<^verbatim>\<open>WDT_RESET_MCU\<close> is called: that function arms
    the watchdog and spins until the controller restarts, so nothing runs after it.
  \<^item> \<open>actuator_log\<close> is the sequence of drivetrain calls made so far.
  The LCD, keypad, servo and EEPROM are not part of the state.
\<close>

subsection \<open>Drivers\<close>

text \<open>TIMER0.c\<close>

definition TIMER0_RESET :: "car \<Rightarrow> car" where
  "TIMER0_RESET s = s\<lparr>TCNT0 := 0, g_TIMER0_Overflow := 0\<rparr>"

definition TIMER0_SetTimerValue :: "uint8 \<Rightarrow> car \<Rightarrow> car" where
  "TIMER0_SetTimerValue v s = s\<lparr>TCNT0 := v\<rparr>"

definition TIMER0_GetTimerValue :: "car \<Rightarrow> uint8" where
  "TIMER0_GetTimerValue s = TCNT0 s"

definition TIMER0_Disable :: "car \<Rightarrow> car" where
  "TIMER0_Disable s = s\<lparr>TIMER0_clocked := False\<rparr>"

definition TIMER0_Enable :: "car \<Rightarrow> car" where
  "TIMER0_Enable s = s\<lparr>TIMER0_clocked := True\<rparr>"

definition TIMER0_SetCallback :: "ovf_callback \<Rightarrow> car \<Rightarrow> car" where
  "TIMER0_SetCallback f s = s\<lparr>g_TIMER0_OVF_CallBack := f\<rparr>"

text \<open>TIMER2.c\<close>

definition TIMER2_SetCompareValue :: "uint8 \<Rightarrow> car \<Rightarrow> car" where
  "TIMER2_SetCompareValue v s = s\<lparr>OCR2 := v, actuator_log := actuator_log s @ [Speed v]\<rparr>"

text \<open>MOTOR.c\<close>

definition MOTOR_BothForward :: "car \<Rightarrow> car" where
  "MOTOR_BothForward s =
     s\<lparr>motors := BothForward, actuator_log := actuator_log s @ [Motor BothForward]\<rparr>"

definition MOTOR_BothBackward :: "car \<Rightarrow> car" where
  "MOTOR_BothBackward s =
     s\<lparr>motors := BothBackward, actuator_log := actuator_log s @ [Motor BothBackward]\<rparr>"

definition MOTOR_BothStop :: "car \<Rightarrow> car" where
  "MOTOR_BothStop s =
     s\<lparr>motors := BothStop, actuator_log := actuator_log s @ [Motor BothStop]\<rparr>"

definition MOTOR_TurnRight :: "car \<Rightarrow> car" where
  "MOTOR_TurnRight s =
     s\<lparr>motors := TurnRight, actuator_log := actuator_log s @ [Motor TurnRight]\<rparr>"

definition MOTOR_TurnLeft :: "car \<Rightarrow> car" where
  "MOTOR_TurnLeft s =
     s\<lparr>motors := TurnLeft, actuator_log := actuator_log s @ [Motor TurnLeft]\<rparr>"

definition MOTOR_SET_Direction :: "uint8 \<Rightarrow> car \<Rightarrow> car" where
  "MOTOR_SET_Direction Direction s =
     (if Direction = MOTOR_FORWARD then MOTOR_BothForward s
      else if Direction = MOTOR_BACKWARD then MOTOR_BothBackward s
      else if Direction = MOTOR_TURN_RIGHT then MOTOR_TurnRight s
      else if Direction = MOTOR_TURN_LEFT then MOTOR_TurnLeft s
      else MOTOR_BothStop s)"

text \<open>UART.c\<close>

definition UART_InterruptDisable_RX :: "car \<Rightarrow> car" where
  "UART_InterruptDisable_RX s = s\<lparr>RXCIE := False\<rparr>"

definition UART_Set_RX_Callback :: "rx_callback \<Rightarrow> uint16 \<Rightarrow> uint8 \<Rightarrow> car \<Rightarrow> car" where
  "UART_Set_RX_Callback f RX_ArraySize Stop_Byte s =
     s\<lparr>g_UART_RXCallBack := f, g_UART_RX_ArraySize := RX_ArraySize,
       g_UART_Stop_Byte := Stop_Byte, g_UART_RX_Index := 0\<rparr>"

text \<open>WDT.c\<close>

definition WDT_RESET_MCU :: "car \<Rightarrow> car" where
  "WDT_RESET_MCU s = s\<lparr>wdt_reset := True\<rparr>"

subsection \<open>The application\<close>

text \<open>
  \<^verbatim>\<open>top\<close> is a \<^verbatim>\<open>uint8\<close>; the comparison with \<^verbatim>\<open>MAX_MOVES\<close> is made on its value
  as an \<^verbatim>\<open>int\<close>, and \<^verbatim>\<open>top++\<close> wraps at 256. The assignments to the bit-fields keep
  the low three bits of \<^verbatim>\<open>reversed_mode\<close> and of \<^verbatim>\<open>gear\<close>.
\<close>

definition Save_Move :: "car \<Rightarrow> car" where
  "Save_Move s =
     TIMER0_RESET
       (if reversed_mode s \<noteq> STOP \<and> unat (top s) < MAX_MOVES
        then s\<lparr>stack := (stack s)[unat (top s) :=
                   \<lparr>rv_mode = ucast (reversed_mode s), rv_gear = ucast (gear s),
                    rv_ovfs = g_TIMER0_Overflow s, rv_tcnt = TIMER0_GetTimerValue s\<rparr>],
               top := top s + 1\<rparr>
        else s)"

definition Back_Reverse :: "car \<Rightarrow> car" where
  "Back_Reverse s0 =
     (let s = s0\<lparr>Back_Reverse_counter := Back_Reverse_counter s0 + 1\<rparr> in
      if Back_Reverse_counter s < ovfCounts s then s
      else
        let s = s\<lparr>Back_Reverse_counter := 0\<rparr> in
        if top s = 0 then WDT_RESET_MCU (MOTOR_BothStop s)
        else
          let s = s\<lparr>top := top s - 1\<rparr>; r = stack s ! unat (top s) in
          if reversed_mode s \<noteq> STOP
          then MOTOR_SET_Direction (ucast (rv_mode r))
                 (TIMER2_SetCompareValue (51 * ucast (rv_gear r))
                   (TIMER0_SetTimerValue (rv_tcnt r) (s\<lparr>ovfCounts := rv_ovfs r\<rparr>)))
          else s)"

definition enter_replay :: "car \<Rightarrow> car" where
  "enter_replay s =
     TIMER0_SetTimerValue 255
       ((TIMER0_SetCallback CB_Back_Reverse
          (UART_InterruptDisable_RX (MOTOR_BothStop s)))\<lparr>ovfCounts := 0\<rparr>)"

text \<open>
  \<open>enter_replay\<close> is the run of five statements that \<^verbatim>\<open>UART_Get_Cmd\<close> (case
  \<^verbatim>\<open>REVERSE\<close>) and \<^verbatim>\<open>Check_Connection\<close> both execute after \<^verbatim>\<open>Save_Move\<close>.
\<close>

definition UART_Get_Cmd :: "car \<Rightarrow> car" where
  "UART_Get_Cmd s0 =
     (let s = s0\<lparr>command := uart_rx_buffer s0 ! 0, car_connected := True\<rparr>;
          c = command s in
      if c = FORWARD then (Save_Move (MOTOR_BothForward s))\<lparr>reversed_mode := BACKWARD\<rparr>
      else if c = BACKWARD then (Save_Move (MOTOR_BothBackward s))\<lparr>reversed_mode := FORWARD\<rparr>
      else if c = STOP then (Save_Move (MOTOR_BothStop s))\<lparr>reversed_mode := STOP\<rparr>
      else if c = STEER_RIGHT then (Save_Move (MOTOR_TurnRight s))\<lparr>reversed_mode := STEER_LEFT\<rparr>
      else if c = STEER_LEFT then (Save_Move (MOTOR_TurnLeft s))\<lparr>reversed_mode := STEER_RIGHT\<rparr>
      else if c = GEARUP then
        (if gear s < MAX_GEAR
         then let s = s\<lparr>gear := gear s + 1\<rparr> in
              Save_Move (TIMER2_SetCompareValue (51 * gear s) s)
         else s)
      else if c = GEARDOWN then
        (if gear s > MIN_GEAR
         then let s = s\<lparr>gear := gear s - 1\<rparr> in
              Save_Move (TIMER2_SetCompareValue (51 * gear s) s)
         else s)
      else if c = CLR_SCREEN then s
      else if c = SEND_LCD then UART_Set_RX_Callback CB_UART_Get_LCD_msg 34 UART_STOPCHAR s
      else if c = REVERSE then enter_replay (Save_Move s)
      else if c = BUZZER_ON then s\<lparr>buzzer := True\<rparr>
      else if c = BUZZER_OFF then s\<lparr>buzzer := False\<rparr>
      else s)"

definition UART_Get_LCD_msg :: "car \<Rightarrow> car" where
  "UART_Get_LCD_msg s =
     (UART_Set_RX_Callback CB_UART_Get_Cmd 1 UART_STOPCHAR s)\<lparr>car_connected := True\<rparr>"

definition Check_Connection :: "car \<Rightarrow> car" where
  "Check_Connection s0 =
     (let s = s0\<lparr>Check_Connection_counter := Check_Connection_counter s0 + 1\<rparr> in
      if Check_Connection_counter s \<ge> ovfCounts s then
        let s = (TIMER0_SetTimerValue (tcnt s) s)\<lparr>Check_Connection_counter := 0\<rparr> in
        if \<not> car_connected s then (enter_replay (Save_Move s))\<lparr>command := REVERSE\<rparr>
        else if command s = STOP \<or> command s = SEND_LCD then s\<lparr>car_connected := True\<rparr>
        else s\<lparr>car_connected := False\<rparr>
      else s)"

text \<open>
  \<^verbatim>\<open>Obstacle_Detection\<close> first samples both sensors (the two samples are the arguments),
  then runs the front rule, then the back rule.
\<close>

definition front_rule :: "car \<Rightarrow> car" where
  "front_rule s =
     (if (command s = FORWARD \<or> (command s = REVERSE \<and> reversed_mode s = FORWARD))
         \<and> front_distance s < 10
      then (if \<not> front_blocked s
            then (TIMER0_Disable (MOTOR_BothStop s))\<lparr>front_blocked := True\<rparr>
            else s)
      else if front_blocked s \<and> front_distance s \<ge> 10
      then (TIMER0_Enable (MOTOR_BothForward s))\<lparr>front_blocked := False\<rparr>
      else s)"

definition back_rule :: "car \<Rightarrow> car" where
  "back_rule s =
     (if (command s = BACKWARD \<or> (command s = REVERSE \<and> reversed_mode s = BACKWARD))
         \<and> back_distance s < 10
      then (if \<not> back_blocked s
            then (TIMER0_Disable (MOTOR_BothStop s))\<lparr>back_blocked := True\<rparr>
            else s)
      else if back_blocked s \<and> back_distance s \<ge> 10
      then (TIMER0_Enable (MOTOR_BothBackward s))\<lparr>back_blocked := False\<rparr>
      else s)"

definition Obstacle_Detection :: "uint16 \<Rightarrow> uint16 \<Rightarrow> car \<Rightarrow> car" where
  "Obstacle_Detection front back s =
     back_rule (front_rule (s\<lparr>front_distance := front, back_distance := back\<rparr>))"

subsection \<open>Interrupts and the main loop\<close>

text \<open>
  \<^verbatim>\<open>__vector_11\<close>, the TIMER0 overflow interrupt: call the registered callback, then
  count the overflow.

  \<^verbatim>\<open>TIMER0_config.h\<close> selects \<^verbatim>\<open>TIMER0_NORMAL_MODE\<close>, enables the overflow interrupt
  and sets \<^verbatim>\<open>TIMER0_SW_TIME_TRACKING\<close> to \<^verbatim>\<open>TIMER0_TIME_TRACKING_ENABLE\<close>, which is the
  configuration under which \<^verbatim>\<open>g_TIMER0_Overflow++\<close> is compiled into the handler.
\<close>

definition vector_11 :: "car \<Rightarrow> car" where
  "vector_11 s =
     (let s = (case g_TIMER0_OVF_CallBack s of
                 CB_Check_Connection \<Rightarrow> Check_Connection s
               | CB_Back_Reverse \<Rightarrow> Back_Reverse s) in
      if wdt_reset s then s
      else s\<lparr>g_TIMER0_Overflow := g_TIMER0_Overflow s + 1\<rparr>)"

text \<open>
  \<^verbatim>\<open>__vector_13\<close>, the UART receive interrupt, for the received byte \<open>byte\<close>. A write
  to \<^verbatim>\<open>uart_rx_buffer[34]\<close> (a stop byte arriving as the 34th byte of a message) is one
  past the end of the array; the list update drops it.
\<close>

definition vector_13 :: "uint8 \<Rightarrow> car \<Rightarrow> car" where
  "vector_13 byte s0 =
     (let s = s0\<lparr>uart_rx_buffer := (uart_rx_buffer s0)[unat (g_UART_RX_Index s0) := byte],
                 g_UART_RX_Index := g_UART_RX_Index s0 + 1\<rparr> in
      if g_UART_RX_Index s \<ge> g_UART_RX_ArraySize s \<or> byte = g_UART_Stop_Byte s then
        let s = (if byte = g_UART_Stop_Byte s
                 then s\<lparr>uart_rx_buffer :=
                          (uart_rx_buffer s)[unat (g_UART_RX_Index s) := g_UART_Stop_Byte s]\<rparr>
                 else s);
            s = s\<lparr>g_UART_RX_Index := 0\<rparr> in
        (case g_UART_RXCallBack s of
           CB_UART_Get_Cmd \<Rightarrow> UART_Get_Cmd s
         | CB_UART_Get_LCD_msg \<Rightarrow> UART_Get_LCD_msg s)
      else s)"

text \<open>
  The hardware counter: one clock tick increments \<^verbatim>\<open>TCNT0\<close> when the timer has a clock
  source, and the wrap from 255 to 0 raises the overflow interrupt.
\<close>

definition TIMER0_tick :: "car \<Rightarrow> car" where
  "TIMER0_tick s =
     (if TIMER0_clocked s
      then let s = s\<lparr>TCNT0 := TCNT0 s + 1\<rparr> in
           if TCNT0 s = 0 then vector_11 s else s
      else s)"

text \<open>
  What can happen to the controller: a byte arrives on the UART, the timer clock ticks,
  or the main loop runs \<^verbatim>\<open>Obstacle_Detection\<close> with two distance samples. Each event
  runs to completion; after \<^verbatim>\<open>WDT_RESET_MCU\<close> nothing runs any more.
\<close>

datatype event = Rx uint8 | Tick | Poll uint16 uint16

fun step :: "event \<Rightarrow> car \<Rightarrow> car" where
  "step (Rx byte) s = (if wdt_reset s \<or> \<not> RXCIE s then s else vector_13 byte s)"
| "step Tick s = (if wdt_reset s then s else TIMER0_tick s)"
| "step (Poll front back) s = (if wdt_reset s then s else Obstacle_Detection front back s)"

definition run :: "event list \<Rightarrow> car \<Rightarrow> car" where
  "run evs s = fold step evs s"

definition ticks :: "nat \<Rightarrow> car \<Rightarrow> car" where
  "ticks n s = (step Tick ^^ n) s"

text \<open>A timer overflow interrupt, and \<open>n\<close> of them in a row.\<close>

definition overflow :: "car \<Rightarrow> car" where
  "overflow s = (if wdt_reset s then s else vector_11 s)"

definition overflows :: "nat \<Rightarrow> car \<Rightarrow> car" where
  "overflows n s = (overflow ^^ n) s"

text \<open>
  The state that \<^verbatim>\<open>APP_Init\<close> leaves behind, given the two numbers that
  \<^verbatim>\<open>TIMER0_Calc_ISR_Timing_ms(5000, &ovfCounts, &tcnt)\<close> computes in floating point
  from the clock configuration: the overflows per heartbeat window and the preload.
\<close>

definition boot :: "uint16 \<Rightarrow> uint8 \<Rightarrow> car" where
  "boot window preload =
     \<lparr>gear = MIN_GEAR, command = STOP, reversed_mode = STOP,
      tcnt = preload, ovfCounts = window,
      front_distance = 0, back_distance = 0,
      front_blocked = False, back_blocked = False, car_connected = True,
      uart_rx_buffer = replicate 34 0,
      stack = replicate MAX_MOVES \<lparr>rv_mode = 0, rv_gear = 0, rv_ovfs = 0, rv_tcnt = 0\<rparr>,
      top = 0,
      Back_Reverse_counter = 0, Check_Connection_counter = 0,
      TCNT0 = 0, g_TIMER0_Overflow = 0, TIMER0_clocked = True,
      g_TIMER0_OVF_CallBack = CB_Check_Connection,
      OCR2 = 51 * MIN_GEAR,
      RXCIE = True,
      g_UART_RXCallBack = CB_UART_Get_Cmd, g_UART_RX_ArraySize = 1,
      g_UART_Stop_Byte = UART_STOPCHAR, g_UART_RX_Index = 0,
      motors = BothStop, buzzer = False, wdt_reset = False,
      actuator_log = []\<rparr>"

subsection \<open>Vocabulary of the properties\<close>

text \<open>The bytes that have a case in the \<^verbatim>\<open>switch\<close> of \<^verbatim>\<open>UART_Get_Cmd\<close>.\<close>

definition recognized :: "uint8 set" where
  "recognized = {FORWARD, BACKWARD, STOP, STEER_RIGHT, STEER_LEFT, GEARUP, GEARDOWN,
                 CLR_SCREEN, SEND_LCD, REVERSE, BUZZER_ON, BUZZER_OFF}"

text \<open>The five motion commands, and the inverse of a motion as the spec gives it.\<close>

definition motion_commands :: "uint8 set" where
  "motion_commands = {FORWARD, BACKWARD, STOP, STEER_RIGHT, STEER_LEFT}"

definition spec_inverse :: "uint8 \<Rightarrow> uint8" where
  "spec_inverse c =
     (if c = FORWARD then BACKWARD
      else if c = BACKWARD then FORWARD
      else if c = STEER_LEFT then STEER_RIGHT
      else if c = STEER_RIGHT then STEER_LEFT
      else STOP)"

text \<open>
  Facts that hold of every state the controller reaches from \<open>boot\<close>: the two arrays keep
  their declared sizes, the UART driver waits for exactly one byte whenever
  \<^verbatim>\<open>UART_Get_Cmd\<close> is the registered receive callback, and \<open>reversed_mode\<close> holds one
  of the five motion bytes.
\<close>

definition wf :: "car \<Rightarrow> bool" where
  "wf s \<longleftrightarrow>
     length (stack s) = MAX_MOVES \<and> length (uart_rx_buffer s) = 34 \<and>
     (g_UART_RXCallBack s = CB_UART_Get_Cmd \<longrightarrow>
        g_UART_RX_ArraySize s = 1 \<and> g_UART_RX_Index s = 0) \<and>
     reversed_mode s \<in> motion_commands"

text \<open>A byte received in such a state is handed to \<^verbatim>\<open>UART_Get_Cmd\<close>.\<close>

definition accepts_command :: "car \<Rightarrow> bool" where
  "accepts_command s \<longleftrightarrow>
     \<not> wdt_reset s \<and> RXCIE s \<and> g_UART_RXCallBack s = CB_UART_Get_Cmd"

text \<open>
  Remote mode with the link flag set and a last command for which \<^verbatim>\<open>Check_Connection\<close>
  keeps the flag set.
\<close>

definition quiet :: "car \<Rightarrow> bool" where
  "quiet s \<longleftrightarrow>
     car_connected s \<and> (command s = STOP \<or> command s = SEND_LCD) \<and>
     g_TIMER0_OVF_CallBack s = CB_Check_Connection"

text \<open>
  How one event may change the stack between a state \<open>s\<close> and its successor \<open>s'\<close>:
  nothing is written and \<open>top\<close> stays or goes down by one, or one record is written at
  index \<open>top\<close>, with the low three bits of \<open>reversed_mode\<close> as its mode, and \<open>top\<close>
  goes up by one.
\<close>

definition moves_rel :: "car \<Rightarrow> car \<Rightarrow> bool" where
  "moves_rel s s' \<longleftrightarrow>
     (stack s' = stack s \<and> (top s' = top s \<or> top s' = top s - 1)) \<or>
     (reversed_mode s \<noteq> STOP \<and> top s' = top s + 1 \<and>
      length (stack s') = length (stack s) \<and>
      rv_mode (stack s' ! unat (top s)) = ucast (reversed_mode s) \<and>
      (\<forall>i. i \<noteq> unat (top s) \<longrightarrow> stack s' ! i = stack s ! i))"

definition no_stop_record :: "car \<Rightarrow> bool" where
  "no_stop_record s \<longleftrightarrow> (\<forall>i<MAX_MOVES. rv_mode (stack s ! i) \<noteq> ucast STOP)"

text \<open>
  The state in which \<^verbatim>\<open>__vector_13\<close> calls \<^verbatim>\<open>UART_Get_Cmd\<close> when the driver waits for
  one byte and \<open>b\<close> arrives.
\<close>

definition received :: "uint8 \<Rightarrow> car \<Rightarrow> car" where
  "received b s =
     s\<lparr>uart_rx_buffer :=
          (if b = g_UART_Stop_Byte s then ((uart_rx_buffer s)[0 := b])[1 := b]
           else (uart_rx_buffer s)[0 := b]),
       g_UART_RX_Index := 0\<rparr>"

text \<open>
  Remote mode as reached from boot: received bytes go to \<^verbatim>\<open>UART_Get_Cmd\<close>,
  \<^verbatim>\<open>Check_Connection\<close> is the overflow callback, and \<^verbatim>\<open>Back_Reverse\<close> has never run.
\<close>

definition remote :: "car \<Rightarrow> bool" where
  "remote s \<longleftrightarrow>
     wf s \<and> accepts_command s \<and> g_TIMER0_OVF_CallBack s = CB_Check_Connection \<and>
     Back_Reverse_counter s = 0"

text \<open>
  A drive of \<open>n\<close> motion commands that alternates FORWARD and BACKWARD, with no timer
  tick in between, and what holds after \<open>n + 1\<close> of them.
\<close>

fun zigzag :: "nat \<Rightarrow> event list" where
  "zigzag 0 = []"
| "zigzag (Suc n) = zigzag n @ [Rx (if even n then FORWARD else BACKWARD)]"

definition zig_inv :: "nat \<Rightarrow> car \<Rightarrow> bool" where
  "zig_inv n s \<longleftrightarrow>
     remote s \<and> top s = of_nat n \<and>
     reversed_mode s = (if even n then BACKWARD else FORWARD) \<and>
     TCNT0 s = 0 \<and> TIMER0_clocked s \<and> (\<forall>i<MAX_MOVES. rv_tcnt (stack s ! i) = 0)"

text \<open>
  The replay of one record: \<open>hold r\<close> is the number of timer overflows for which
  \<^verbatim>\<open>Back_Reverse\<close> waits once \<open>r\<close> is loaded, and \<open>reapply r\<close> are the two drivetrain
  calls it makes when it loads \<open>r\<close>.
\<close>

definition hold :: "reverse \<Rightarrow> nat" where
  "hold r = max 1 (unat (rv_ovfs r))"

definition reapply :: "reverse \<Rightarrow> car \<Rightarrow> car" where
  "reapply r s =
     MOTOR_SET_Direction (ucast (rv_mode r)) (TIMER2_SetCompareValue (51 * ucast (rv_gear r)) s)"

text \<open>
  The replay between two steps: \<^verbatim>\<open>Back_Reverse\<close> is the overflow callback, its counter
  is at zero, and \<open>reversed_mode\<close> is not \<open>STOP\<close> unless the stack is empty.
\<close>

definition unwinding :: "car \<Rightarrow> bool" where
  "unwinding s \<longleftrightarrow>
     g_TIMER0_OVF_CallBack s = CB_Back_Reverse \<and> \<not> wdt_reset s \<and>
     Back_Reverse_counter s = 0 \<and> (top s \<noteq> 0 \<longrightarrow> reversed_mode s \<noteq> STOP)"

text \<open>
  A remote-controlled drive: each command byte is received and then held for a number of
  timer ticks.
\<close>

definition nonstop_motions :: "uint8 set" where
  "nonstop_motions = {FORWARD, BACKWARD, STEER_RIGHT, STEER_LEFT}"

fun drive :: "(uint8 \<times> nat) list \<Rightarrow> car \<Rightarrow> car" where
  "drive [] s = s"
| "drive ((c, d) # cs) s = drive cs (ticks d (step (Rx c) s))"

text \<open>What the stack holds after such a drive from boot.\<close>

definition drive_inv :: "(uint8 \<times> nat) list \<Rightarrow> car \<Rightarrow> bool" where
  "drive_inv script s \<longleftrightarrow>
     remote s \<and>
     reversed_mode s = (if script = [] then STOP else spec_inverse (fst (last script))) \<and>
     unat (top s) = length script - 1 \<and>
     (\<forall>i < length script - 1. rv_mode (stack s ! i) = ucast (spec_inverse (fst (script ! i))))"

section \<open>Properties\<close>

lemmas driver_defs =
  TIMER0_RESET_def TIMER0_SetTimerValue_def TIMER0_GetTimerValue_def TIMER0_Disable_def
  TIMER0_Enable_def TIMER0_SetCallback_def TIMER2_SetCompareValue_def
  MOTOR_BothForward_def MOTOR_BothBackward_def MOTOR_BothStop_def MOTOR_TurnRight_def
  MOTOR_TurnLeft_def MOTOR_SET_Direction_def UART_InterruptDisable_RX_def
  UART_Set_RX_Callback_def WDT_RESET_MCU_def

lemmas app_defs =
  Save_Move_def Back_Reverse_def enter_replay_def UART_Get_Cmd_def UART_Get_LCD_msg_def
  Check_Connection_def front_rule_def back_rule_def Obstacle_Detection_def

lemmas irq_defs = vector_11_def vector_13_def TIMER0_tick_def overflow_def

subsection \<open>Runs\<close>

lemma run_Nil [simp]: "run [] s = s"
  by (simp add: run_def)

lemma run_Cons [simp]: "run (e # evs) s = run evs (step e s)"
  by (simp add: run_def)

lemma run_append: "run (xs @ ys) s = run ys (run xs s)"
  by (simp add: run_def)

lemma ticks_0 [simp]: "ticks 0 s = s"
  by (simp add: ticks_def)

lemma ticks_Suc: "ticks (Suc n) s = step Tick (ticks n s)"
  by (simp add: ticks_def)

lemma overflows_0 [simp]: "overflows 0 s = s"
  by (simp add: overflows_def)

lemma overflows_Suc: "overflows (Suc k) s = overflow (overflows k s)"
  by (simp add: overflows_def)

lemma overflows_add: "overflows (m + n) s = overflows n (overflows m s)"
  by (metis add.commute comp_apply funpow_add overflows_def)

subsection \<open>The four outcomes of one call of \<^verbatim>\<open>Back_Reverse\<close>\<close>

lemma Back_Reverse_wait:
  "Back_Reverse_counter s + 1 < ovfCounts s \<Longrightarrow>
   Back_Reverse s = s\<lparr>Back_Reverse_counter := Back_Reverse_counter s + 1\<rparr>"
  by (simp add: Back_Reverse_def Let_def)

lemma Back_Reverse_empty:
  "\<not> Back_Reverse_counter s + 1 < ovfCounts s \<Longrightarrow> top s = 0 \<Longrightarrow>
   Back_Reverse s = WDT_RESET_MCU (MOTOR_BothStop (s\<lparr>Back_Reverse_counter := 0\<rparr>))"
  by (simp add: Back_Reverse_def Let_def)

lemma Back_Reverse_pop:
  "\<not> Back_Reverse_counter s + 1 < ovfCounts s \<Longrightarrow> top s \<noteq> 0 \<Longrightarrow>
   reversed_mode s \<noteq> STOP \<Longrightarrow>
   Back_Reverse s =
     MOTOR_SET_Direction (ucast (rv_mode (stack s ! unat (top s - 1))))
       (TIMER2_SetCompareValue (51 * ucast (rv_gear (stack s ! unat (top s - 1))))
         (s\<lparr>Back_Reverse_counter := 0, top := top s - 1,
            ovfCounts := rv_ovfs (stack s ! unat (top s - 1)),
            TCNT0 := rv_tcnt (stack s ! unat (top s - 1))\<rparr>))"
  by (simp add: Back_Reverse_def Let_def driver_defs)

lemma Back_Reverse_skip:
  "\<not> Back_Reverse_counter s + 1 < ovfCounts s \<Longrightarrow> top s \<noteq> 0 \<Longrightarrow>
   reversed_mode s = STOP \<Longrightarrow>
   Back_Reverse s = s\<lparr>Back_Reverse_counter := 0, top := top s - 1\<rparr>"
  by (simp add: Back_Reverse_def Let_def)

text \<open>
  C3 (amended). On a replay step at which the required overflow count is reached: if the
  stack is empty the motors are stopped and \<^verbatim>\<open>WDT_RESET_MCU\<close> is called; otherwise the
  most recent record is popped and, provided \<open>reversed_mode\<close> (the inverse of the motion
  in flight when the replay began) is not \<open>STOP\<close>, the record's overflow count and timer
  value are loaded, 51 times its gear is written to the speed register and
  \<^verbatim>\<open>MOTOR_SET_Direction\<close> is called with the record's mode field; nothing else changes.
\<close>

theorem C3_replay_step:
  assumes "\<not> Back_Reverse_counter s + 1 < ovfCounts s"
  shows "(top s = 0 \<longrightarrow>
            Back_Reverse s =
              WDT_RESET_MCU (MOTOR_BothStop (s\<lparr>Back_Reverse_counter := 0\<rparr>))) \<and>
         (top s \<noteq> 0 \<and> reversed_mode s \<noteq> STOP \<longrightarrow>
            Back_Reverse s =
              MOTOR_SET_Direction (ucast (rv_mode (stack s ! unat (top s - 1))))
                (TIMER2_SetCompareValue (51 * ucast (rv_gear (stack s ! unat (top s - 1))))
                  (s\<lparr>Back_Reverse_counter := 0, top := top s - 1,
                     ovfCounts := rv_ovfs (stack s ! unat (top s - 1)),
                     TCNT0 := rv_tcnt (stack s ! unat (top s - 1))\<rparr>)))"
  using assms Back_Reverse_empty Back_Reverse_pop by blast

theorem C3_replay_step_witness:
  "\<not> Back_Reverse_counter (run [Rx REVERSE] (boot 1000 0)) + 1
       < ovfCounts (run [Rx REVERSE] (boot 1000 0)) \<and>
   top (run [Rx REVERSE] (boot 1000 0)) = 0 \<and>
   wdt_reset (Back_Reverse (run [Rx REVERSE] (boot 1000 0))) \<and>
   motors (Back_Reverse (run [Rx REVERSE] (boot 1000 0))) = BothStop \<and>
   \<not> Back_Reverse_counter (run [Rx STEER_LEFT, Rx GEARUP, Rx REVERSE] (boot 1000 0)) + 1
       < ovfCounts (run [Rx STEER_LEFT, Rx GEARUP, Rx REVERSE] (boot 1000 0)) \<and>
   top (run [Rx STEER_LEFT, Rx GEARUP, Rx REVERSE] (boot 1000 0)) = 2 \<and>
   reversed_mode (run [Rx STEER_LEFT, Rx GEARUP, Rx REVERSE] (boot 1000 0)) \<noteq> STOP \<and>
   top (Back_Reverse (run [Rx STEER_LEFT, Rx GEARUP, Rx REVERSE] (boot 1000 0))) = 1 \<and>
   OCR2 (Back_Reverse (run [Rx STEER_LEFT, Rx GEARUP, Rx REVERSE] (boot 1000 0))) = 102 \<and>
   motors (Back_Reverse (run [Rx STEER_LEFT, Rx GEARUP, Rx REVERSE] (boot 1000 0)))
     = TurnLeft"
  using C3_replay_step [of "run [Rx REVERSE] (boot 1000 0)"]
    C3_replay_step [of "run [Rx STEER_LEFT, Rx GEARUP, Rx REVERSE] (boot 1000 0)"]
  by (simp add: boot_def irq_defs app_defs driver_defs Let_def)

text \<open>
  C3 as stated fails when the replay begins out of a stop. After FORWARD, STOP, GEARUP
  and REVERSE the stack holds one record of gear 1 while the speed register holds 102;
  the replay step pops the record, and neither the speed register nor the drivetrain is
  written.
\<close>

theorem C3_counterexample:
  "top (run [Rx FORWARD, Rx STOP, Rx GEARUP, Rx REVERSE] (boot 1000 0)) = 1 \<and>
   rv_gear (stack (run [Rx FORWARD, Rx STOP, Rx GEARUP, Rx REVERSE] (boot 1000 0)) ! 0) = 1 \<and>
   \<not> Back_Reverse_counter (run [Rx FORWARD, Rx STOP, Rx GEARUP, Rx REVERSE] (boot 1000 0)) + 1
       < ovfCounts (run [Rx FORWARD, Rx STOP, Rx GEARUP, Rx REVERSE] (boot 1000 0)) \<and>
   top (Back_Reverse (run [Rx FORWARD, Rx STOP, Rx GEARUP, Rx REVERSE] (boot 1000 0))) = 0 \<and>
   OCR2 (Back_Reverse (run [Rx FORWARD, Rx STOP, Rx GEARUP, Rx REVERSE] (boot 1000 0)))
     = 102 \<and>
   actuator_log (Back_Reverse (run [Rx FORWARD, Rx STOP, Rx GEARUP, Rx REVERSE] (boot 1000 0)))
     = actuator_log (run [Rx FORWARD, Rx STOP, Rx GEARUP, Rx REVERSE] (boot 1000 0))"
  by (simp add: boot_def irq_defs app_defs driver_defs Let_def)

subsection \<open>Unrecognized command bytes\<close>

text \<open>
  C8 (amended). For every byte outside the recognized command set, \<^verbatim>\<open>UART_Get_Cmd\<close>
  pushes nothing and changes no motion, gear, timer, stack or peripheral state; the only
  two variables it writes are \<open>command\<close>, which becomes the received byte, and
  \<open>car_connected\<close>, which becomes true.
\<close>

theorem C8_unknown_byte:
  "uart_rx_buffer s ! 0 \<notin> recognized \<Longrightarrow>
   UART_Get_Cmd s = s\<lparr>command := uart_rx_buffer s ! 0, car_connected := True\<rparr>"
  by (simp add: UART_Get_Cmd_def recognized_def Let_def)

theorem C8_unknown_byte_witness:
  "uart_rx_buffer ((boot 1 0)\<lparr>uart_rx_buffer := (replicate 34 0)[0 := 0x78]\<rparr>) ! 0
     \<notin> recognized \<and>
   UART_Get_Cmd ((boot 1 0)\<lparr>uart_rx_buffer := (replicate 34 0)[0 := 0x78]\<rparr>) =
     (boot 1 0)\<lparr>uart_rx_buffer := (replicate 34 0)[0 := 0x78],
                command := 0x78, car_connected := True\<rparr>"
  using C8_unknown_byte [of "(boot 1 0)\<lparr>uart_rx_buffer := (replicate 34 0)[0 := 0x78]\<rparr>"]
  by (simp add: recognized_def)

text \<open>
  C8 as stated fails: the byte \<open>0x78\<close> has no case in the switch, yet after a heartbeat
  window has cleared \<open>car_connected\<close> its arrival sets the flag again and overwrites
  \<open>command\<close>.
\<close>

theorem C8_counterexample:
  "0x78 \<notin> recognized \<and>
   \<not> car_connected (overflow (run [Rx FORWARD] (boot 1 0))) \<and>
   car_connected (run [Rx 0x78] (overflow (run [Rx FORWARD] (boot 1 0)))) \<and>
   command (overflow (run [Rx FORWARD] (boot 1 0))) = FORWARD \<and>
   command (run [Rx 0x78] (overflow (run [Rx FORWARD] (boot 1 0)))) = 0x78"
  by (simp add: recognized_def boot_def irq_defs app_defs driver_defs Let_def)

subsection \<open>A replay that begins out of a stop\<close>

lemma word8_neq_of_nat: "k < unat (t :: uint8) \<Longrightarrow> t \<noteq> of_nat k"
proof
  assume k: "k < unat t" and z: "t = of_nat k"
  from z have "unat t = k mod 256" by (simp add: unat_of_nat)
  with k show False by (metis mod_less_eq_dividend not_less)
qed

lemma stopped_unwind_pops:
  assumes "g_TIMER0_OVF_CallBack s = CB_Back_Reverse" "\<not> wdt_reset s"
    "reversed_mode s = STOP" "ovfCounts s = 0" "Back_Reverse_counter s = 0"
  shows "k \<le> unat (top s) \<Longrightarrow>
         overflows k s = s\<lparr>top := top s - of_nat k,
                            g_TIMER0_Overflow := g_TIMER0_Overflow s + of_nat k\<rparr>"
proof (induction k)
  case 0
  then show ?case by simp
next
  case (Suc k)
  then have IH: "overflows k s = s\<lparr>top := top s - of_nat k,
                            g_TIMER0_Overflow := g_TIMER0_Overflow s + of_nat k\<rparr>"
    and nz: "top s \<noteq> of_nat k"
    by (simp_all add: word8_neq_of_nat)
  show ?case
    using assms nz
    by (simp add: overflows_Suc IH overflow_def vector_11_def Back_Reverse_skip algebra_simps)
qed

lemma stopped_unwind_finish:
  assumes "g_TIMER0_OVF_CallBack s = CB_Back_Reverse" "\<not> wdt_reset s"
    "reversed_mode s = STOP" "ovfCounts s = 0" "Back_Reverse_counter s = 0"
  shows "overflows (unat (top s) + 1) s =
           WDT_RESET_MCU (MOTOR_BothStop
             (s\<lparr>top := 0,
                g_TIMER0_Overflow := g_TIMER0_Overflow s + of_nat (unat (top s))\<rparr>))"
  using assms stopped_unwind_pops [OF assms, of "unat (top s)"]
  by (simp add: overflows_Suc overflow_def vector_11_def Back_Reverse_empty driver_defs)

text \<open>
  C10. Let the replay have begun (the overflow callback is \<^verbatim>\<open>Back_Reverse\<close>, its counter
  and \<open>ovfCounts\<close> are zero) with \<open>reversed_mode\<close> equal to \<open>STOP\<close>. Then each of the next
  \<open>top\<close> timer overflows pops one record and changes nothing but \<open>top\<close> and the
  driver's overflow count: no motor call, no write of the speed register, no load of
  \<open>ovfCounts\<close> or of the timer value. The overflow after that stops the motors and calls
  \<^verbatim>\<open>WDT_RESET_MCU\<close>.
\<close>

theorem C10_stopped_unwind:
  assumes "g_TIMER0_OVF_CallBack s = CB_Back_Reverse" "\<not> wdt_reset s"
    "reversed_mode s = STOP" "ovfCounts s = 0" "Back_Reverse_counter s = 0"
  shows "(\<forall>k \<le> unat (top s).
            overflows k s = s\<lparr>top := top s - of_nat k,
                               g_TIMER0_Overflow := g_TIMER0_Overflow s + of_nat k\<rparr>) \<and>
         overflows (unat (top s) + 1) s =
           WDT_RESET_MCU (MOTOR_BothStop
             (s\<lparr>top := 0,
                g_TIMER0_Overflow := g_TIMER0_Overflow s + of_nat (unat (top s))\<rparr>))"
  using stopped_unwind_pops [OF assms] stopped_unwind_finish [OF assms] by blast

theorem C10_stopped_unwind_witness:
  "g_TIMER0_OVF_CallBack (run [Rx FORWARD, Rx GEARUP, Rx STOP, Rx REVERSE] (boot 1000 0))
     = CB_Back_Reverse \<and>
   \<not> wdt_reset (run [Rx FORWARD, Rx GEARUP, Rx STOP, Rx REVERSE] (boot 1000 0)) \<and>
   reversed_mode (run [Rx FORWARD, Rx GEARUP, Rx STOP, Rx REVERSE] (boot 1000 0)) = STOP \<and>
   ovfCounts (run [Rx FORWARD, Rx GEARUP, Rx STOP, Rx REVERSE] (boot 1000 0)) = 0 \<and>
   Back_Reverse_counter (run [Rx FORWARD, Rx GEARUP, Rx STOP, Rx REVERSE] (boot 1000 0)) = 0 \<and>
   unat (top (run [Rx FORWARD, Rx GEARUP, Rx STOP, Rx REVERSE] (boot 1000 0))) = 2 \<and>
   top (overflows 1 (run [Rx FORWARD, Rx GEARUP, Rx STOP, Rx REVERSE] (boot 1000 0))) = 1 \<and>
   top (overflows 2 (run [Rx FORWARD, Rx GEARUP, Rx STOP, Rx REVERSE] (boot 1000 0))) = 0 \<and>
   actuator_log (overflows 2 (run [Rx FORWARD, Rx GEARUP, Rx STOP, Rx REVERSE] (boot 1000 0)))
     = actuator_log (run [Rx FORWARD, Rx GEARUP, Rx STOP, Rx REVERSE] (boot 1000 0)) \<and>
   wdt_reset (overflows 3 (run [Rx FORWARD, Rx GEARUP, Rx STOP, Rx REVERSE] (boot 1000 0))) \<and>
   motors (overflows 3 (run [Rx FORWARD, Rx GEARUP, Rx STOP, Rx REVERSE] (boot 1000 0)))
     = BothStop"
proof -
  define s where "s = run [Rx FORWARD, Rx GEARUP, Rx STOP, Rx REVERSE] (boot 1000 0)"
  have h: "g_TIMER0_OVF_CallBack s = CB_Back_Reverse" "\<not> wdt_reset s"
    "reversed_mode s = STOP" "ovfCounts s = 0" "Back_Reverse_counter s = 0"
    by (simp_all add: s_def boot_def irq_defs app_defs driver_defs Let_def)
  have t: "top s = 2"
    by (simp add: s_def boot_def irq_defs app_defs driver_defs Let_def)
  note T = C10_stopped_unwind [OF h]
  from T t have p1: "overflows 1 s = s\<lparr>top := top s - of_nat 1,
      g_TIMER0_Overflow := g_TIMER0_Overflow s + of_nat 1\<rparr>"
    by simp
  from T t have p2: "overflows 2 s = s\<lparr>top := top s - of_nat 2,
      g_TIMER0_Overflow := g_TIMER0_Overflow s + of_nat 2\<rparr>"
    by simp
  from T t have p3: "overflows 3 s = WDT_RESET_MCU (MOTOR_BothStop
      (s\<lparr>top := 0, g_TIMER0_Overflow := g_TIMER0_Overflow s + of_nat (unat (top s))\<rparr>))"
    by simp
  have "g_TIMER0_OVF_CallBack s = CB_Back_Reverse \<and> \<not> wdt_reset s \<and>
    reversed_mode s = STOP \<and> ovfCounts s = 0 \<and> Back_Reverse_counter s = 0 \<and>
    unat (top s) = 2 \<and> top (overflows 1 s) = 1 \<and> top (overflows 2 s) = 0 \<and>
    actuator_log (overflows 2 s) = actuator_log s \<and>
    wdt_reset (overflows 3 s) \<and> motors (overflows 3 s) = BothStop"
    using h t p1 p2 p3 by (simp add: driver_defs)
  then show ?thesis
    unfolding s_def .
qed

subsection \<open>The heartbeat window\<close>

lemma callback_Save_Move [simp]:
  "g_TIMER0_OVF_CallBack (Save_Move s) = g_TIMER0_OVF_CallBack s"
  by (simp add: Save_Move_def driver_defs)

lemma callback_UART_Get_Cmd:
  "g_TIMER0_OVF_CallBack s = CB_Back_Reverse \<Longrightarrow>
   g_TIMER0_OVF_CallBack (UART_Get_Cmd s) = CB_Back_Reverse"
  by (simp add: UART_Get_Cmd_def Let_def enter_replay_def driver_defs)

lemma callback_Check_Connection:
  "g_TIMER0_OVF_CallBack s = CB_Back_Reverse \<Longrightarrow>
   g_TIMER0_OVF_CallBack (Check_Connection s) = CB_Back_Reverse"
  by (simp add: Check_Connection_def Let_def enter_replay_def driver_defs)

lemma callback_Back_Reverse [simp]:
  "g_TIMER0_OVF_CallBack (Back_Reverse s) = g_TIMER0_OVF_CallBack s"
  by (simp add: Back_Reverse_def Let_def driver_defs)

lemma callback_Obstacle_Detection [simp]:
  "g_TIMER0_OVF_CallBack (Obstacle_Detection f b s) = g_TIMER0_OVF_CallBack s"
  by (simp add: Obstacle_Detection_def front_rule_def back_rule_def driver_defs)

text \<open>Nothing ever installs \<^verbatim>\<open>Check_Connection\<close> again.\<close>

lemma callback_sticky_step:
  "g_TIMER0_OVF_CallBack s = CB_Back_Reverse \<Longrightarrow>
   g_TIMER0_OVF_CallBack (step e s) = CB_Back_Reverse"
  by (cases e)
     (simp_all add: vector_13_def vector_11_def TIMER0_tick_def Let_def
        callback_UART_Get_Cmd UART_Get_LCD_msg_def driver_defs split: rx_callback.split)

lemma callback_sticky_run:
  "g_TIMER0_OVF_CallBack s = CB_Back_Reverse \<Longrightarrow>
   g_TIMER0_OVF_CallBack (run evs s) = CB_Back_Reverse"
  by (induction evs arbitrary: s) (simp_all add: callback_sticky_step del: step.simps)

lemma callback_sticky_ticks:
  "g_TIMER0_OVF_CallBack s = CB_Back_Reverse \<Longrightarrow>
   g_TIMER0_OVF_CallBack (ticks n s) = CB_Back_Reverse"
  by (induction n) (simp_all add: ticks_Suc callback_sticky_step del: step.simps)

lemma quiet_Check_Connection: "quiet s \<Longrightarrow> quiet (Check_Connection s)"
  by (auto simp add: quiet_def Check_Connection_def Let_def driver_defs)

lemma quiet_tick: "quiet s \<Longrightarrow> quiet (step Tick s)"
  using quiet_Check_Connection [of "s\<lparr>TCNT0 := TCNT0 s + 1\<rparr>"]
  by (auto simp add: TIMER0_tick_def vector_11_def Let_def quiet_def)

lemma quiet_ticks: "quiet s \<Longrightarrow> quiet (ticks n s)"
  by (induction n) (simp_all add: ticks_Suc quiet_tick del: step.simps)

text \<open>
  C4 (amended). At a heartbeat-window boundary in Remote mode with the link flag set:
  if the last command byte is \<open>STOP\<close> or \<open>SEND_LCD\<close> the flag stays set, and for every
  other byte it is cleared for the next window. With the flag clear at the boundary the
  replay is entered: the motors are stopped, the receive interrupt is disabled,
  \<open>command\<close> becomes \<open>REVERSE\<close> and \<^verbatim>\<open>Back_Reverse\<close> replaces \<^verbatim>\<open>Check_Connection\<close> as
  the overflow callback for good, so the transition is made at most once. A vehicle whose
  last command is \<open>STOP\<close> or \<open>SEND_LCD\<close> and whose flag is set never enters the replay,
  however many timer ticks pass without a command.
\<close>

theorem C4_watchdog_window:
  assumes "ovfCounts s \<le> Check_Connection_counter s + 1"
  shows "(car_connected s \<and> (command s = STOP \<or> command s = SEND_LCD) \<longrightarrow>
            car_connected (Check_Connection s) \<and>
            g_TIMER0_OVF_CallBack (Check_Connection s) = g_TIMER0_OVF_CallBack s) \<and>
         (car_connected s \<and> command s \<noteq> STOP \<and> command s \<noteq> SEND_LCD \<longrightarrow>
            \<not> car_connected (Check_Connection s) \<and>
            g_TIMER0_OVF_CallBack (Check_Connection s) = g_TIMER0_OVF_CallBack s) \<and>
         (\<not> car_connected s \<longrightarrow>
            g_TIMER0_OVF_CallBack (Check_Connection s) = CB_Back_Reverse \<and>
            \<not> RXCIE (Check_Connection s) \<and> motors (Check_Connection s) = BothStop \<and>
            command (Check_Connection s) = REVERSE \<and>
            (\<forall>evs. g_TIMER0_OVF_CallBack (run evs (Check_Connection s)) = CB_Back_Reverse)) \<and>
         (car_connected s \<and> (command s = STOP \<or> command s = SEND_LCD) \<and>
          g_TIMER0_OVF_CallBack s = CB_Check_Connection \<longrightarrow>
            (\<forall>n. car_connected (ticks n s) \<and>
                 g_TIMER0_OVF_CallBack (ticks n s) = CB_Check_Connection))"
proof -
  have a: "car_connected s \<and> (command s = STOP \<or> command s = SEND_LCD) \<longrightarrow>
            car_connected (Check_Connection s) \<and>
            g_TIMER0_OVF_CallBack (Check_Connection s) = g_TIMER0_OVF_CallBack s"
    using assms by (auto simp add: Check_Connection_def Let_def driver_defs)
  have b: "car_connected s \<and> command s \<noteq> STOP \<and> command s \<noteq> SEND_LCD \<longrightarrow>
            \<not> car_connected (Check_Connection s) \<and>
            g_TIMER0_OVF_CallBack (Check_Connection s) = g_TIMER0_OVF_CallBack s"
    using assms by (auto simp add: Check_Connection_def Let_def driver_defs)
  have c: "\<not> car_connected s \<longrightarrow>
            g_TIMER0_OVF_CallBack (Check_Connection s) = CB_Back_Reverse \<and>
            \<not> RXCIE (Check_Connection s) \<and> motors (Check_Connection s) = BothStop \<and>
            command (Check_Connection s) = REVERSE"
    using assms
    by (auto simp add: Check_Connection_def Let_def enter_replay_def Save_Move_def driver_defs)
  have d: "car_connected s \<and> (command s = STOP \<or> command s = SEND_LCD) \<and>
          g_TIMER0_OVF_CallBack s = CB_Check_Connection \<longrightarrow>
            (\<forall>n. car_connected (ticks n s) \<and>
                 g_TIMER0_OVF_CallBack (ticks n s) = CB_Check_Connection)"
    using quiet_ticks [of s] by (auto simp add: quiet_def)
  from a b c d show ?thesis
    using callback_sticky_run by blast
qed

theorem C4_watchdog_window_witness:
  "ovfCounts (run [Rx STOP] (boot 1 0)) \<le> Check_Connection_counter (run [Rx STOP] (boot 1 0)) + 1 \<and>
   car_connected (run [Rx STOP] (boot 1 0)) \<and> command (run [Rx STOP] (boot 1 0)) = STOP \<and>
   g_TIMER0_OVF_CallBack (run [Rx STOP] (boot 1 0)) = CB_Check_Connection \<and>
   car_connected (Check_Connection (run [Rx STOP] (boot 1 0))) \<and>
   g_TIMER0_OVF_CallBack (ticks 7 (run [Rx STOP] (boot 1 0))) = CB_Check_Connection \<and>
   ovfCounts (run [Rx FORWARD] (boot 1 0))
     \<le> Check_Connection_counter (run [Rx FORWARD] (boot 1 0)) + 1 \<and>
   car_connected (run [Rx FORWARD] (boot 1 0)) \<and>
   command (run [Rx FORWARD] (boot 1 0)) \<noteq> STOP \<and>
   command (run [Rx FORWARD] (boot 1 0)) \<noteq> SEND_LCD \<and>
   \<not> car_connected (Check_Connection (run [Rx FORWARD] (boot 1 0))) \<and>
   ovfCounts (overflow (run [Rx FORWARD] (boot 1 0)))
     \<le> Check_Connection_counter (overflow (run [Rx FORWARD] (boot 1 0))) + 1 \<and>
   \<not> car_connected (overflow (run [Rx FORWARD] (boot 1 0))) \<and>
   g_TIMER0_OVF_CallBack (Check_Connection (overflow (run [Rx FORWARD] (boot 1 0))))
     = CB_Back_Reverse \<and>
   g_TIMER0_OVF_CallBack
     (run [Rx FORWARD, Tick] (Check_Connection (overflow (run [Rx FORWARD] (boot 1 0)))))
     = CB_Back_Reverse"
proof -
  define a where "a = run [Rx STOP] (boot 1 0)"
  define b where "b = run [Rx FORWARD] (boot 1 0)"
  define c where "c = overflow (run [Rx FORWARD] (boot 1 0))"
  have ha: "ovfCounts a \<le> Check_Connection_counter a + 1" "car_connected a"
    "command a = STOP" "g_TIMER0_OVF_CallBack a = CB_Check_Connection"
    by (simp_all add: a_def boot_def irq_defs app_defs driver_defs Let_def)
  have hb: "ovfCounts b \<le> Check_Connection_counter b + 1" "car_connected b"
    "command b \<noteq> STOP" "command b \<noteq> SEND_LCD"
    by (simp_all add: b_def boot_def irq_defs app_defs driver_defs Let_def)
  have hc: "ovfCounts c \<le> Check_Connection_counter c + 1" "\<not> car_connected c"
    by (simp_all add: c_def boot_def irq_defs app_defs driver_defs Let_def)
  have "ovfCounts a \<le> Check_Connection_counter a + 1 \<and> car_connected a \<and>
    command a = STOP \<and> g_TIMER0_OVF_CallBack a = CB_Check_Connection \<and>
    car_connected (Check_Connection a) \<and>
    g_TIMER0_OVF_CallBack (ticks 7 a) = CB_Check_Connection \<and>
    ovfCounts b \<le> Check_Connection_counter b + 1 \<and> car_connected b \<and>
    command b \<noteq> STOP \<and> command b \<noteq> SEND_LCD \<and>
    \<not> car_connected (Check_Connection b) \<and>
    ovfCounts c \<le> Check_Connection_counter c + 1 \<and> \<not> car_connected c \<and>
    g_TIMER0_OVF_CallBack (Check_Connection c) = CB_Back_Reverse \<and>
    g_TIMER0_OVF_CallBack (run [Rx FORWARD, Tick] (Check_Connection c)) = CB_Back_Reverse"
    using C4_watchdog_window [OF ha(1)] C4_watchdog_window [OF hb(1)]
      C4_watchdog_window [OF hc(1)] ha hb hc
    by blast
  then show ?thesis
    unfolding a_def b_def c_def .
qed

text \<open>
  C4 as stated fails: at the window boundary after a \<open>STOP\<close> command the flag is left
  set, not cleared, and no number of silent windows leads into the replay (here a window
  is one overflow, 256 ticks, and 100000 ticks pass without a byte).
\<close>

theorem C4_counterexample:
  "ovfCounts (run [Rx STOP] (boot 1 0)) \<le> Check_Connection_counter (run [Rx STOP] (boot 1 0)) + 1 \<and>
   car_connected (run [Rx STOP] (boot 1 0)) \<and> command (run [Rx STOP] (boot 1 0)) = STOP \<and>
   car_connected (Check_Connection (run [Rx STOP] (boot 1 0))) \<and>
   g_TIMER0_OVF_CallBack (ticks 100000 (run [Rx STOP] (boot 1 0))) = CB_Check_Connection"
proof -
  define a where "a = run [Rx STOP] (boot 1 0)"
  have q: "quiet a"
    by (simp add: quiet_def a_def boot_def irq_defs app_defs driver_defs Let_def)
  have "ovfCounts a \<le> Check_Connection_counter a + 1"
    by (simp add: a_def boot_def irq_defs app_defs driver_defs Let_def)
  moreover have "quiet (Check_Connection a)" using q by (rule quiet_Check_Connection)
  moreover have "quiet (ticks 100000 a)" using q by (rule quiet_ticks)
  ultimately have "ovfCounts a \<le> Check_Connection_counter a + 1 \<and>
    car_connected a \<and> command a = STOP \<and> car_connected (Check_Connection a) \<and>
    g_TIMER0_OVF_CallBack (ticks 100000 a) = CB_Check_Connection"
    using q by (simp add: quiet_def a_def boot_def irq_defs app_defs driver_defs Let_def)
  then show ?thesis
    unfolding a_def .
qed

subsection \<open>Resuming after an obstacle\<close>

text \<open>
  C7 (amended). Whenever a blocked direction's distance sample is at least 10,
  \<^verbatim>\<open>Obstacle_Detection\<close> clears that direction's flag, re-enables the timer clock and
  drives both motors in the direction of that sensor: forward for the front sensor,
  backward for the back sensor, whatever was driven before the block. For the front
  sensor the clock and motor settings are those in force when the front rule has run;
  the back rule of the same poll runs after it.
\<close>

theorem C7_obstacle_resume:
  "(front_blocked s \<and> 10 \<le> front \<longrightarrow>
      \<not> front_blocked (front_rule (s\<lparr>front_distance := front, back_distance := back\<rparr>)) \<and>
      TIMER0_clocked (front_rule (s\<lparr>front_distance := front, back_distance := back\<rparr>)) \<and>
      motors (front_rule (s\<lparr>front_distance := front, back_distance := back\<rparr>))
        = BothForward \<and>
      \<not> front_blocked (Obstacle_Detection front back s)) \<and>
   (back_blocked s \<and> 10 \<le> back \<longrightarrow>
      \<not> back_blocked (Obstacle_Detection front back s) \<and>
      TIMER0_clocked (Obstacle_Detection front back s) \<and>
      motors (Obstacle_Detection front back s) = BothBackward)"
  by (auto simp add: Obstacle_Detection_def front_rule_def back_rule_def driver_defs
        not_less [symmetric])

theorem C7_obstacle_resume_witness:
  "front_blocked (run [Rx FORWARD, Poll 5 100] (boot 1000 0)) \<and> (10 :: uint16) \<le> 50 \<and>
   \<not> front_blocked (Obstacle_Detection 50 100 (run [Rx FORWARD, Poll 5 100] (boot 1000 0))) \<and>
   motors (front_rule ((run [Rx FORWARD, Poll 5 100] (boot 1000 0))
             \<lparr>front_distance := 50, back_distance := 100\<rparr>)) = BothForward \<and>
   back_blocked (run [Rx BACKWARD, Poll 100 5] (boot 1000 0)) \<and>
   \<not> back_blocked (Obstacle_Detection 100 50 (run [Rx BACKWARD, Poll 100 5] (boot 1000 0))) \<and>
   TIMER0_clocked (Obstacle_Detection 100 50 (run [Rx BACKWARD, Poll 100 5] (boot 1000 0))) \<and>
   motors (Obstacle_Detection 100 50 (run [Rx BACKWARD, Poll 100 5] (boot 1000 0)))
     = BothBackward"
proof -
  define a where "a = run [Rx FORWARD, Poll 5 100] (boot 1000 0)"
  define b where "b = run [Rx BACKWARD, Poll 100 5] (boot 1000 0)"
  have ha: "front_blocked a"
    by (simp add: a_def boot_def irq_defs app_defs driver_defs Let_def)
  have hb: "back_blocked b"
    by (simp add: b_def boot_def irq_defs app_defs driver_defs Let_def)
  have "front_blocked a \<and> (10 :: uint16) \<le> 50 \<and>
    \<not> front_blocked (Obstacle_Detection 50 100 a) \<and>
    motors (front_rule (a\<lparr>front_distance := 50, back_distance := 100\<rparr>)) = BothForward \<and>
    back_blocked b \<and> \<not> back_blocked (Obstacle_Detection 100 50 b) \<and>
    TIMER0_clocked (Obstacle_Detection 100 50 b) \<and>
    motors (Obstacle_Detection 100 50 b) = BothBackward"
    using C7_obstacle_resume [of a 50 100] C7_obstacle_resume [of b 100 50] ha hb
    by simp
  then show ?thesis
    unfolding a_def b_def .
qed

text \<open>
  C7 as stated fails in Replaying mode. BACKWARD then REVERSE leaves the vehicle stopped
  with \<open>reversed_mode = FORWARD\<close>; a front sample of 5 blocks it, and the sample of 50
  that ends the block drives both motors forward, which is not what was driven before
  the block.
\<close>

theorem C7_counterexample:
  "motors (run [Rx BACKWARD, Rx REVERSE] (boot 1000 0)) = BothStop \<and>
   \<not> front_blocked (run [Rx BACKWARD, Rx REVERSE] (boot 1000 0)) \<and>
   front_blocked (run [Rx BACKWARD, Rx REVERSE, Poll 5 100] (boot 1000 0)) \<and>
   \<not> front_blocked (run [Rx BACKWARD, Rx REVERSE, Poll 5 100, Poll 50 100] (boot 1000 0)) \<and>
   motors (run [Rx BACKWARD, Rx REVERSE, Poll 5 100, Poll 50 100] (boot 1000 0))
     = BothForward"
  by (simp add: boot_def irq_defs app_defs driver_defs Let_def)

subsection \<open>Invariants of every run\<close>

lemma top_lt_MAX_MOVES: "unat (t :: uint8) < 300"
  using unsigned_less [of t, where ?'a = nat] by simp

lemma wf_boot: "wf (boot w p)"
  by (simp add: wf_def boot_def motion_commands_def)

lemma wf_Save_Move: "wf s \<Longrightarrow> wf (Save_Move s)"
  by (simp add: wf_def Save_Move_def driver_defs)

lemma wf_UART_Get_Cmd: "wf s \<Longrightarrow> wf (UART_Get_Cmd s)"
  by (auto simp add: wf_def UART_Get_Cmd_def Let_def Save_Move_def enter_replay_def
        driver_defs motion_commands_def)

lemma wf_Check_Connection: "wf s \<Longrightarrow> wf (Check_Connection s)"
  by (simp add: wf_def Check_Connection_def Let_def Save_Move_def enter_replay_def driver_defs)

lemma wf_Back_Reverse: "wf s \<Longrightarrow> wf (Back_Reverse s)"
  by (auto simp add: wf_def Back_Reverse_def Let_def driver_defs)

lemma wf_TCNT0 [simp]: "wf (s\<lparr>TCNT0 := v\<rparr>) = wf s"
  by (simp add: wf_def)

lemma wf_Obstacle_Detection: "wf s \<Longrightarrow> wf (Obstacle_Detection f b s)"
  by (simp add: wf_def Obstacle_Detection_def front_rule_def back_rule_def driver_defs)

lemma wf_vector_11: "wf s \<Longrightarrow> wf (vector_11 s)"
  using wf_Check_Connection [of s] wf_Back_Reverse [of s]
  by (cases "g_TIMER0_OVF_CallBack s") (simp_all add: vector_11_def Let_def wf_def)

lemma wf_vector_13: "wf s \<Longrightarrow> wf (vector_13 b s)"
  apply (simp add: vector_13_def Let_def split: rx_callback.split)
  apply (intro conjI impI wf_UART_Get_Cmd)
  apply (simp_all add: wf_def UART_Get_LCD_msg_def driver_defs)
  done

lemma wf_step: "wf s \<Longrightarrow> wf (step e s)"
  by (cases e) (simp_all add: wf_vector_13 TIMER0_tick_def Let_def wf_vector_11
       wf_Obstacle_Detection)

lemma wf_run: "wf s \<Longrightarrow> wf (run evs s)"
  by (induction evs arbitrary: s) (simp_all add: wf_step del: step.simps)


text \<open>Every event changes the stack in one of the ways of \<open>moves_rel\<close>.\<close>

lemma moves_Save_Move: "length (stack s) = MAX_MOVES \<Longrightarrow> moves_rel s (Save_Move s)"
  by (simp add: moves_rel_def Save_Move_def driver_defs top_lt_MAX_MOVES)

lemma moves_UART_Get_Cmd: "length (stack s) = MAX_MOVES \<Longrightarrow> moves_rel s (UART_Get_Cmd s)"
  by (simp add: moves_rel_def UART_Get_Cmd_def Let_def Save_Move_def enter_replay_def
        driver_defs top_lt_MAX_MOVES)

lemma moves_Check_Connection:
  "length (stack s) = MAX_MOVES \<Longrightarrow> moves_rel s (Check_Connection s)"
  by (simp add: moves_rel_def Check_Connection_def Let_def Save_Move_def enter_replay_def
        driver_defs top_lt_MAX_MOVES)

lemma moves_Back_Reverse: "moves_rel s (Back_Reverse s)"
  by (simp add: moves_rel_def Back_Reverse_def Let_def driver_defs)

lemma moves_Obstacle_Detection: "moves_rel s (Obstacle_Detection f b s)"
  by (simp add: moves_rel_def Obstacle_Detection_def front_rule_def back_rule_def driver_defs)

lemma moves_rel_frame:
  "stack a = stack s \<Longrightarrow> top a = top s \<Longrightarrow> reversed_mode a = reversed_mode s \<Longrightarrow>
   moves_rel a s' \<Longrightarrow> moves_rel s s'"
  by (simp add: moves_rel_def)

lemma moves_rel_kept: "stack a = stack s \<Longrightarrow> top a = top s \<Longrightarrow> moves_rel s a"
  by (simp add: moves_rel_def)

lemma moves_step: "length (stack s) = MAX_MOVES \<Longrightarrow> moves_rel s (step e s)"
proof (cases e)
  case (Rx b)
  assume len: "length (stack s) = MAX_MOVES"
  show ?thesis
  proof (cases "wdt_reset s \<or> \<not> RXCIE s")
    case True
    with Rx show ?thesis by (simp add: moves_rel_def)
  next
    case False
    have frame: "\<And>a. stack a = stack s \<Longrightarrow> top a = top s \<Longrightarrow>
        reversed_mode a = reversed_mode s \<Longrightarrow> moves_rel s (UART_Get_Cmd a)"
      using len by (metis moves_UART_Get_Cmd moves_rel_frame)
    from False Rx show ?thesis
      by (simp add: vector_13_def Let_def frame split: rx_callback.split)
         (simp add: moves_rel_def UART_Get_LCD_msg_def driver_defs)
  qed
next
  case Tick
  assume len: "length (stack s) = MAX_MOVES"
  have "moves_rel s (vector_11 (s\<lparr>TCNT0 := v\<rparr>))" for v
  proof (cases "g_TIMER0_OVF_CallBack s")
    case CB_Check_Connection
    have "moves_rel (s\<lparr>TCNT0 := v\<rparr>) (Check_Connection (s\<lparr>TCNT0 := v\<rparr>))"
      using len by (intro moves_Check_Connection) simp
    then have "moves_rel s (Check_Connection (s\<lparr>TCNT0 := v\<rparr>))"
      by (rule moves_rel_frame [rotated 3]) simp_all
    with CB_Check_Connection show ?thesis
      by (simp add: vector_11_def Let_def moves_rel_def)
  next
    case CB_Back_Reverse
    have "moves_rel s (Back_Reverse (s\<lparr>TCNT0 := v\<rparr>))"
      using moves_Back_Reverse [of "s\<lparr>TCNT0 := v\<rparr>"]
      by (rule moves_rel_frame [rotated 3]) simp_all
    with CB_Back_Reverse show ?thesis
      by (simp add: vector_11_def Let_def moves_rel_def)
  qed
  with Tick show ?thesis
    by (simp add: TIMER0_tick_def Let_def moves_rel_kept)
next
  case (Poll f b)
  then show ?thesis
    using moves_Obstacle_Detection [of s f b] by (simp add: moves_rel_def)
qed


subsection \<open>What is on the stack\<close>

lemma no_stop_record_moves:
  assumes "wf s" "no_stop_record s" "moves_rel s s'"
  shows "no_stop_record s'"
proof -
  have m: "reversed_mode s \<noteq> STOP \<Longrightarrow> (ucast (reversed_mode s) :: 3 word) \<noteq> ucast STOP"
    using assms(1) by (auto simp add: wf_def motion_commands_def)
  show ?thesis
    using assms(2,3) m
    by (auto simp add: no_stop_record_def moves_rel_def) metis
qed

lemma no_stop_record_run:
  "wf s \<Longrightarrow> no_stop_record s \<Longrightarrow> no_stop_record (run evs s)"
proof (induction evs arbitrary: s)
  case Nil
  then show ?case by simp
next
  case (Cons e evs)
  have "moves_rel s (step e s)" using Cons.prems(1) by (simp add: moves_step wf_def)
  then have "no_stop_record (step e s)"
    using Cons.prems no_stop_record_moves by blast
  moreover have "wf (step e s)" using Cons.prems(1) by (rule wf_step)
  ultimately show ?case using Cons.IH by simp
qed

lemma no_stop_record_boot: "no_stop_record (boot w p)"
  by (simp add: no_stop_record_def boot_def)

text \<open>
  C9. \<^verbatim>\<open>Save_Move\<close> stores nothing when \<open>reversed_mode\<close> is \<open>STOP\<close>: it only resets the
  timer. In particular the first motion command after boot pushes nothing. After any
  sequence of events from boot, no slot of the stack has the mode of \<open>STOP\<close>, so an
  interval spent stopped is never on the stack and never replayed.
\<close>

theorem C9_no_stop_record:
  "(reversed_mode s = STOP \<longrightarrow> Save_Move s = TIMER0_RESET s) \<and>
   (c \<in> motion_commands \<longrightarrow>
      top (run [Rx c] (boot w p)) = 0 \<and> stack (run [Rx c] (boot w p)) = stack (boot w p)) \<and>
   (\<forall>i<MAX_MOVES. rv_mode (stack (run evs (boot w p)) ! i) \<noteq> ucast STOP)"
proof -
  have a: "reversed_mode s = STOP \<longrightarrow> Save_Move s = TIMER0_RESET s"
    by (simp add: Save_Move_def)
  have b: "c \<in> motion_commands \<longrightarrow>
      top (run [Rx c] (boot w p)) = 0 \<and> stack (run [Rx c] (boot w p)) = stack (boot w p)"
    by (auto simp add: motion_commands_def boot_def irq_defs app_defs driver_defs Let_def)
  have "no_stop_record (run evs (boot w p))"
    using wf_boot no_stop_record_boot by (rule no_stop_record_run)
  with a b show ?thesis
    by (simp add: no_stop_record_def)
qed


theorem C9_no_stop_record_witness:
  "reversed_mode (boot 1000 0) = STOP \<and>
   Save_Move (boot 1000 0) = TIMER0_RESET (boot 1000 0) \<and>
   FORWARD \<in> motion_commands \<and>
   top (run [Rx FORWARD] (boot 1000 0)) = 0 \<and>
   (1 :: nat) < MAX_MOVES \<and>
   top (run [Rx FORWARD, Rx STOP, Rx BACKWARD, Rx REVERSE] (boot 1000 0)) = 2 \<and>
   rv_mode (stack (run [Rx FORWARD, Rx STOP, Rx BACKWARD, Rx REVERSE] (boot 1000 0)) ! 1)
     \<noteq> ucast STOP"
  using C9_no_stop_record [of "boot 1000 0" FORWARD 1000 0
      "[Rx FORWARD, Rx STOP, Rx BACKWARD, Rx REVERSE]"]
  by (simp add: motion_commands_def boot_def irq_defs app_defs driver_defs Let_def)

subsection \<open>The mode of a pushed record\<close>

lemma vector_13_cmd:
  "wf s \<Longrightarrow> g_UART_RXCallBack s = CB_UART_Get_Cmd \<Longrightarrow>
   vector_13 b s = UART_Get_Cmd (received b s)"
  by (simp add: wf_def vector_13_def received_def Let_def)

lemma received_byte: "wf s \<Longrightarrow> uart_rx_buffer (received b s) ! 0 = b"
  by (simp add: wf_def received_def)

lemma reversed_mode_UART_Get_Cmd:
  "reversed_mode (UART_Get_Cmd a) =
     (if uart_rx_buffer a ! 0 \<in> motion_commands then spec_inverse (uart_rx_buffer a ! 0)
      else reversed_mode a)"
  by (simp add: UART_Get_Cmd_def Let_def Save_Move_def enter_replay_def driver_defs
        motion_commands_def spec_inverse_def)

lemma reversed_mode_Rx:
  "wf s \<Longrightarrow> accepts_command s \<Longrightarrow>
   reversed_mode (step (Rx b) s) =
     (if b \<in> motion_commands then spec_inverse b else reversed_mode s)"
  by (simp add: accepts_command_def vector_13_cmd reversed_mode_UART_Get_Cmd received_byte)
     (simp add: received_def)

lemma reversed_mode_Check_Connection [simp]:
  "reversed_mode (Check_Connection s) = reversed_mode s"
  by (simp add: Check_Connection_def Let_def Save_Move_def enter_replay_def driver_defs)

lemma reversed_mode_Back_Reverse [simp]:
  "reversed_mode (Back_Reverse s) = reversed_mode s"
  by (simp add: Back_Reverse_def Let_def driver_defs)

lemma reversed_mode_Obstacle_Detection [simp]:
  "reversed_mode (Obstacle_Detection f b s) = reversed_mode s"
  by (simp add: Obstacle_Detection_def front_rule_def back_rule_def driver_defs)

lemma reversed_mode_vector_11 [simp]: "reversed_mode (vector_11 s) = reversed_mode s"
  by (cases "g_TIMER0_OVF_CallBack s") (simp_all add: vector_11_def Let_def)

lemma reversed_mode_step:
  assumes "wf s" "\<forall>b. e = Rx b \<longrightarrow> b \<notin> motion_commands"
  shows "reversed_mode (step e s) = reversed_mode s"
proof (cases e)
  case (Rx b)
  show ?thesis
  proof (cases "g_UART_RXCallBack s")
    case CB_UART_Get_Cmd
    with assms Rx show ?thesis
      by (simp add: vector_13_cmd reversed_mode_UART_Get_Cmd received_byte)
         (simp add: received_def)
  next
    case CB_UART_Get_LCD_msg
    with Rx show ?thesis
      by (simp add: vector_13_def Let_def UART_Get_LCD_msg_def driver_defs)
  qed
next
  case Tick
  then show ?thesis by (simp add: TIMER0_tick_def Let_def)
next
  case (Poll f b)
  then show ?thesis by simp
qed

lemma reversed_mode_run:
  "wf s \<Longrightarrow> \<forall>b. Rx b \<in> set evs \<longrightarrow> b \<notin> motion_commands \<Longrightarrow>
   reversed_mode (run evs s) = reversed_mode s"
proof (induction evs arbitrary: s)
  case Nil
  then show ?case by simp
next
  case (Cons e evs)
  have "reversed_mode (step e s) = reversed_mode s"
    using Cons.prems by (intro reversed_mode_step) auto
  moreover have "reversed_mode (run evs (step e s)) = reversed_mode (step e s)"
    using Cons.prems by (intro Cons.IH wf_step) auto
  ultimately show ?case by simp
qed

lemma push_mode:
  assumes "moves_rel s s'" "top s' = top s + 1"
  shows "rv_mode (stack s' ! unat (top s)) = ucast (reversed_mode s)"
proof -
  have "top s + 1 \<noteq> top s" by simp
  moreover have "top s + 1 \<noteq> top s - 1"
  proof
    assume "top s + 1 = top s - 1"
    then have "(2 :: uint8) = 0" by (simp add: algebra_simps)
    then show False by simp
  qed
  ultimately show ?thesis
    using assms by (auto simp add: moves_rel_def)
qed

text \<open>
  C2. Let a motion command \<open>c\<close> be received in a state reached from boot in which
  received bytes are handed to \<^verbatim>\<open>UART_Get_Cmd\<close>, and let any events follow that bring no
  further motion command, so that \<open>c\<close> is still the motion in force. If the next event
  pushes a record (\<open>top\<close> goes up by one), the mode field of the record written at the
  old \<open>top\<close> holds the inverse of \<open>c\<close> under FORWARD/BACKWARD, STEER_LEFT/STEER_RIGHT,
  STOP/STOP, as the three-bit field stores it. For \<open>c = STOP\<close> no event pushes, by C9.
\<close>

theorem C2_direction_inversion:
  assumes "accepts_command (run evs0 (boot w p))"
    and "c \<in> motion_commands"
    and "\<forall>b. Rx b \<in> set evs \<longrightarrow> b \<notin> motion_commands"
    and "top (step e (run (evs0 @ Rx c # evs) (boot w p)))
           = top (run (evs0 @ Rx c # evs) (boot w p)) + 1"
  shows "rv_mode (stack (step e (run (evs0 @ Rx c # evs) (boot w p)))
                   ! unat (top (run (evs0 @ Rx c # evs) (boot w p))))
           = ucast (spec_inverse c)"
proof -
  define s0 where "s0 = run evs0 (boot w p)"
  define s1 where "s1 = step (Rx c) s0"
  define s2 where "s2 = run evs s1"
  have s2: "run (evs0 @ Rx c # evs) (boot w p) = s2"
    by (simp add: s2_def s1_def s0_def run_append)
  have wf0: "wf s0" unfolding s0_def using wf_boot by (rule wf_run)
  then have wf1: "wf s1" unfolding s1_def by (rule wf_step)
  then have wf2: "wf s2" unfolding s2_def by (rule wf_run)
  have acc: "accepts_command s0" using assms(1) by (simp add: s0_def)
  have "reversed_mode s1 = spec_inverse c"
    using reversed_mode_Rx [OF wf0 acc, of c] assms(2) by (simp add: s1_def)
  moreover have "reversed_mode s2 = reversed_mode s1"
    unfolding s2_def using wf1 assms(3) by (rule reversed_mode_run)
  moreover have "moves_rel s2 (step e s2)"
    using wf2 by (simp add: moves_step wf_def)
  ultimately show ?thesis
    using assms(4) push_mode [of s2 "step e s2"] by (simp add: s2)
qed

theorem C2_direction_inversion_witness:
  "accepts_command (run [] (boot 1000 0)) \<and> STEER_LEFT \<in> motion_commands \<and>
   GEARUP \<notin> motion_commands \<and>
   top (step (Rx FORWARD) (run ([] @ Rx STEER_LEFT # [Tick, Rx GEARUP, Poll 50 50]) (boot 1000 0)))
     = top (run ([] @ Rx STEER_LEFT # [Tick, Rx GEARUP, Poll 50 50]) (boot 1000 0)) + 1 \<and>
   rv_mode (stack (step (Rx FORWARD)
              (run ([] @ Rx STEER_LEFT # [Tick, Rx GEARUP, Poll 50 50]) (boot 1000 0)))
            ! unat (top (run ([] @ Rx STEER_LEFT # [Tick, Rx GEARUP, Poll 50 50]) (boot 1000 0))))
     = ucast (spec_inverse STEER_LEFT) \<and>
   (ucast (spec_inverse STEER_LEFT) :: 3 word) = 4"
  using C2_direction_inversion [of "[]" 1000 0 STEER_LEFT "[Tick, Rx GEARUP, Poll 50 50]"
      "Rx FORWARD"]
  by (simp add: accepts_command_def motion_commands_def spec_inverse_def boot_def
        irq_defs app_defs driver_defs Let_def)

text \<open>The three-bit field tells the five motions apart.\<close>

lemma mode_field_distinct:
  "c \<in> motion_commands \<Longrightarrow> c' \<in> motion_commands \<Longrightarrow>
   (ucast c :: 3 word) = ucast c' \<Longrightarrow> c = c'"
  by (auto simp add: motion_commands_def)

subsection \<open>Motion commands in Remote mode\<close>

lemma step_Rx_cmd:
  "wf s \<Longrightarrow> accepts_command s \<Longrightarrow> step (Rx b) s = UART_Get_Cmd (received b s)"
  by (simp add: accepts_command_def vector_13_cmd)

lemma remote_boot: "remote (boot w p)"
  by (simp add: remote_def wf_boot) (simp add: accepts_command_def boot_def)

lemma motion_cmd_effect:
  assumes "remote s" "c \<in> motion_commands"
  shows "remote (step (Rx c) s) \<and>
         reversed_mode (step (Rx c) s) = spec_inverse c \<and>
         top (step (Rx c) s) = (if reversed_mode s = STOP then top s else top s + 1) \<and>
         stack (step (Rx c) s) =
           (if reversed_mode s = STOP then stack s
            else (stack s)[unat (top s) :=
                   \<lparr>rv_mode = ucast (reversed_mode s), rv_gear = ucast (gear s),
                    rv_ovfs = g_TIMER0_Overflow s, rv_tcnt = TCNT0 s\<rparr>]) \<and>
         TCNT0 (step (Rx c) s) = 0 \<and>
         g_TIMER0_Overflow (step (Rx c) s) = 0 \<and>
         gear (step (Rx c) s) = gear s \<and>
         TIMER0_clocked (step (Rx c) s) = TIMER0_clocked s"
proof -
  have w: "wf s" and a: "accepts_command s" using assms(1) by (simp_all add: remote_def)
  have b: "uart_rx_buffer (received c s) ! 0 = c" using w by (rule received_byte)
  have e: "step (Rx c) s = UART_Get_Cmd (received c s)" using w a by (rule step_Rx_cmd)
  have w': "wf (UART_Get_Cmd (received c s))" using wf_step [OF w, of "Rx c"] by (simp only: e)
  have f: "remote (received c s)" "reversed_mode (received c s) = reversed_mode s"
    "top (received c s) = top s" "stack (received c s) = stack s"
    "TCNT0 (received c s) = TCNT0 s" "g_TIMER0_Overflow (received c s) = g_TIMER0_Overflow s"
    "gear (received c s) = gear s" "TIMER0_clocked (received c s) = TIMER0_clocked s"
    using assms(1) by (simp_all add: received_def remote_def accepts_command_def wf_def)
  define a where "a = received c s"
  have g: "c = FORWARD \<or> c = BACKWARD \<or> c = STOP \<or> c = STEER_RIGHT \<or> c = STEER_LEFT"
    using assms(2) by (simp add: motion_commands_def)
  have "remote (UART_Get_Cmd a) \<and>
         reversed_mode (UART_Get_Cmd a) = spec_inverse c \<and>
         top (UART_Get_Cmd a) = (if reversed_mode a = STOP then top a else top a + 1) \<and>
         stack (UART_Get_Cmd a) =
           (if reversed_mode a = STOP then stack a
            else (stack a)[unat (top a) :=
                   \<lparr>rv_mode = ucast (reversed_mode a), rv_gear = ucast (gear a),
                    rv_ovfs = g_TIMER0_Overflow a, rv_tcnt = TCNT0 a\<rparr>]) \<and>
         TCNT0 (UART_Get_Cmd a) = 0 \<and>
         g_TIMER0_Overflow (UART_Get_Cmd a) = 0 \<and>
         gear (UART_Get_Cmd a) = gear a \<and>
         TIMER0_clocked (UART_Get_Cmd a) = TIMER0_clocked a"
    using g f(1) b w' unfolding a_def [symmetric]
    apply (elim disjE)
        apply (simp_all add: UART_Get_Cmd_def Let_def Save_Move_def driver_defs remote_def
          accepts_command_def wf_def top_lt_MAX_MOVES spec_inverse_def)
    done
  then show ?thesis
    unfolding e a_def f(2-8) .
qed


subsection \<open>The stack index\<close>

lemma zig_inv_boot: "zig_inv 0 (step (Rx FORWARD) (boot w p))"
proof -
  have cm: "FORWARD \<in> motion_commands" by (simp add: motion_commands_def)
  have b: "reversed_mode (boot w p) = STOP" "top (boot w p) = 0" "TIMER0_clocked (boot w p)"
    "\<forall>i<MAX_MOVES. rv_tcnt (stack (boot w p) ! i) = 0"
    by (simp_all add: boot_def)
  from motion_cmd_effect [OF remote_boot cm, of w p] b show ?thesis
    by (simp add: zig_inv_def spec_inverse_def del: step.simps)
qed

lemma zig_inv_step:
  assumes "zig_inv n s"
  shows "zig_inv (Suc n) (step (Rx (if even (Suc n) then FORWARD else BACKWARD)) s)"
proof -
  define c where "c = (if even (Suc n) then FORWARD else BACKWARD)"
  have r: "remote s" using assms by (simp add: zig_inv_def)
  have cm: "c \<in> motion_commands" by (simp add: c_def motion_commands_def)
  have len: "length (stack s) = 300" using r by (simp add: remote_def wf_def)
  have ns: "reversed_mode s \<noteq> STOP" using assms by (simp add: zig_inv_def)
  have sl: "\<forall>i<MAX_MOVES. rv_tcnt (stack s ! i) = 0" "TCNT0 s = 0" "top s = of_nat n"
    "TIMER0_clocked s"
    using assms by (simp_all add: zig_inv_def)
  have slots: "\<forall>i<MAX_MOVES. rv_tcnt ((stack s)[k := r] ! i) = 0" if "rv_tcnt r = 0" for r k
    using sl(1) len that by (cases "k < length (stack s)") (auto simp add: nth_list_update list_update_beyond)
  have m: "reversed_mode s = (if even n then BACKWARD else FORWARD)"
    using assms by (simp add: zig_inv_def)
  have "zig_inv (Suc n) (step (Rx c) s)"
  proof (cases "even n")
    case True
    then have c: "c = BACKWARD" by (simp add: c_def)
    show ?thesis
      using motion_cmd_effect [OF r cm] ns sl(2-4) True slots
      by (simp add: zig_inv_def c spec_inverse_def del: step.simps)
  next
    case False
    then have c: "c = FORWARD" by (simp add: c_def)
    show ?thesis
      using motion_cmd_effect [OF r cm] ns sl(2-4) False slots
      by (simp add: zig_inv_def c spec_inverse_def del: step.simps)
  qed
  then show ?thesis by (simp only: c_def)
qed

lemma zigzag_run: "zig_inv n (run (zigzag (Suc n)) (boot w p))"
proof (induction n)
  case 0
  show ?case using zig_inv_boot [of w p] by (simp del: step.simps)
next
  case (Suc n)
  have "run (zigzag (Suc (Suc n))) (boot w p)
          = step (Rx (if even (Suc n) then FORWARD else BACKWARD)) (run (zigzag (Suc n)) (boot w p))"
    by (simp add: run_append del: step.simps)
  with zig_inv_step [OF Suc] show ?case by (simp only:)
qed

text \<open>
  C5 (the code at the failing input). \<^verbatim>\<open>top\<close> is a \<^verbatim>\<open>uint8\<close>, so the guard
  \<^verbatim>\<open>top < MAX_MOVES\<close> never fails and \<^verbatim>\<open>top++\<close> wraps at 256. After 301 motion commands
  (300 pushes) \<open>top\<close> reads 44, after 257 commands (256 pushes) it reads 0, and the
  301st push is not discarded: it overwrites slot 44, the 45th record, whose recorded
  timer value changes from 0 to 1, and \<open>top\<close> becomes 45.
\<close>

theorem C5_top_wraps:
  "unat (top (run (zigzag 301) (boot 1000 0))) = 44 \<and>
   rv_tcnt (stack (run (zigzag 301) (boot 1000 0)) ! 44) = 0 \<and>
   unat (top (run (zigzag 257) (boot 1000 0))) = 0 \<and>
   unat (top (run (zigzag 301 @ [Tick, Rx BACKWARD]) (boot 1000 0))) = 45 \<and>
   rv_tcnt (stack (run (zigzag 301 @ [Tick, Rx BACKWARD]) (boot 1000 0)) ! 44) = 1"
proof -
  define s where "s = run (zigzag 301) (boot 1000 0)"
  have n1: "(301 :: nat) = Suc 300" and n2: "(257 :: nat) = Suc 256" by simp_all
  have z: "zig_inv 300 s" unfolding s_def n1 by (rule zigzag_run)
  have "zig_inv 256 (run (zigzag 257) (boot 1000 0))" unfolding n2 by (rule zigzag_run)
  then have z2: "top (run (zigzag 257) (boot 1000 0)) = 0" by (simp add: zig_inv_def)
  from z have r: "remote s" and t: "top s = 44" and c0: "TCNT0 s = 0"
    and ck: "TIMER0_clocked s" and m: "reversed_mode s = BACKWARD"
    and sl: "rv_tcnt (stack s ! 44) = 0"
    by (simp_all add: zig_inv_def)
  have nr: "\<not> wdt_reset s" using r by (simp add: remote_def accepts_command_def)
  have tk: "step Tick s = s\<lparr>TCNT0 := 1\<rparr>"
    using c0 ck nr by (simp add: TIMER0_tick_def Let_def)
  have r1: "remote (s\<lparr>TCNT0 := 1\<rparr>)"
    using r by (simp add: remote_def accepts_command_def)
  have cm: "BACKWARD \<in> motion_commands" by (simp add: motion_commands_def)
  have len: "length (stack s) = 300" using r by (simp add: remote_def wf_def)
  have e: "run (zigzag 301 @ [Tick, Rx BACKWARD]) (boot 1000 0)
             = step (Rx BACKWARD) (s\<lparr>TCNT0 := 1\<rparr>)"
    using tk by (simp add: run_append s_def del: step.simps)
  have "unat (top s) = 44 \<and> rv_tcnt (stack s ! 44) = 0 \<and>
    unat (top (run (zigzag 257) (boot 1000 0))) = 0 \<and>
    unat (top (step (Rx BACKWARD) (s\<lparr>TCNT0 := 1\<rparr>))) = 45 \<and>
    rv_tcnt (stack (step (Rx BACKWARD) (s\<lparr>TCNT0 := 1\<rparr>)) ! 44) = 1"
    using motion_cmd_effect [OF r1 cm] t sl z2 m len by (simp del: step.simps)
  then show ?thesis
    unfolding e s_def .
qed

subsection \<open>The timer clock while an obstacle flag is set\<close>

text \<open>
  C6 (the code at the failing input). BACKWARD, a back obstacle, FORWARD, then a front
  obstacle in the poll in which the back one has gone: the front rule stops the timer
  and sets \<open>front_blocked\<close>, and the back rule of the same poll, finding the back clear,
  starts the timer again. The timer now counts while \<open>front_blocked\<close> is set, and the
  three ticks that pass are part of the next record's recorded timer value.
\<close>

theorem C6_blocked_clock_runs:
  "front_blocked (run [Rx BACKWARD, Poll 100 5, Rx FORWARD, Poll 5 50] (boot 1000 0)) \<and>
   TIMER0_clocked (run [Rx BACKWARD, Poll 100 5, Rx FORWARD, Poll 5 50] (boot 1000 0)) \<and>
   TCNT0 (run [Rx BACKWARD, Poll 100 5, Rx FORWARD, Poll 5 50] (boot 1000 0)) = 0 \<and>
   front_blocked
     (run [Rx BACKWARD, Poll 100 5, Rx FORWARD, Poll 5 50, Tick, Tick, Tick] (boot 1000 0)) \<and>
   TCNT0 (run [Rx BACKWARD, Poll 100 5, Rx FORWARD, Poll 5 50, Tick, Tick, Tick] (boot 1000 0))
     = 3 \<and>
   top (run [Rx BACKWARD, Poll 100 5, Rx FORWARD, Poll 5 50, Tick, Tick, Tick, Rx STOP]
          (boot 1000 0)) = 2 \<and>
   rv_tcnt (stack (run [Rx BACKWARD, Poll 100 5, Rx FORWARD, Poll 5 50, Tick, Tick, Tick,
                        Rx STOP] (boot 1000 0)) ! 1) = 3"
  by (simp add: boot_def irq_defs app_defs driver_defs Let_def)

subsection \<open>Unwinding the stack\<close>

text \<open>Waiting: the first overflows of a step only count.\<close>

lemma unwind_wait:
  assumes "g_TIMER0_OVF_CallBack s = CB_Back_Reverse" "\<not> wdt_reset s"
    "Back_Reverse_counter s = 0"
  shows "j < max 1 (unat (ovfCounts s)) \<Longrightarrow>
         overflows j s = s\<lparr>Back_Reverse_counter := of_nat j,
                            g_TIMER0_Overflow := g_TIMER0_Overflow s + of_nat j\<rparr>"
proof (induction j)
  case 0
  then show ?case using assms(3) by simp
next
  case (Suc j)
  then have IH: "overflows j s = s\<lparr>Back_Reverse_counter := of_nat j,
                            g_TIMER0_Overflow := g_TIMER0_Overflow s + of_nat j\<rparr>"
    and lt: "Suc j < unat (ovfCounts s)"
    by simp_all
  have "unat (of_nat (Suc j) :: uint16) = Suc j"
    using lt unsigned_less [of "ovfCounts s", where ?'a = nat]
    by (simp add: unat_of_nat del: of_nat_Suc)
  moreover have "(of_nat (Suc j) :: uint16) = of_nat j + 1" by simp
  ultimately have "unat (of_nat j + 1 :: uint16) = Suc j" by (simp only:)
  then have w: "(of_nat j + 1 :: uint16) < ovfCounts s"
    using lt by (simp only: word_less_nat_alt)
  show ?case
    using assms(1,2) w
    by (simp add: overflows_Suc IH overflow_def vector_11_def Back_Reverse_wait algebra_simps)
qed

lemma unwind_threshold:
  "\<not> (of_nat (max 1 (unat k) - 1) + 1 :: uint16) < k"
proof (cases "unat k = 0")
  case True
  then have "k = 0" by (simp add: unat_eq_zero)
  then show ?thesis by simp
next
  case False
  then have "max 1 (unat k) - 1 + 1 = unat k" by simp
  then have "(of_nat (max 1 (unat k) - 1) + 1 :: uint16) = of_nat (unat k)"
    by (metis of_nat_Suc Suc_eq_plus1 add.commute)
  then show ?thesis by simp
qed

text \<open>The overflow that ends a step, with a record left on the stack.\<close>

lemma unwind_fire_pop:
  assumes "unwinding s" "top s \<noteq> 0"
  shows "overflows (max 1 (unat (ovfCounts s))) s =
           (reapply (stack s ! unat (top s - 1))
             (s\<lparr>top := top s - 1,
                ovfCounts := rv_ovfs (stack s ! unat (top s - 1)),
                TCNT0 := rv_tcnt (stack s ! unat (top s - 1))\<rparr>))
           \<lparr>g_TIMER0_Overflow := g_TIMER0_Overflow s + of_nat (max 1 (unat (ovfCounts s)))\<rparr>"
proof -
  define m where "m = max 1 (unat (ovfCounts s)) - 1"
  have u: "g_TIMER0_OVF_CallBack s = CB_Back_Reverse" "\<not> wdt_reset s"
    "Back_Reverse_counter s = 0" "reversed_mode s \<noteq> STOP"
    using assms by (simp_all add: unwinding_def)
  have m1: "max 1 (unat (ovfCounts s)) = Suc m" by (simp add: m_def)
  have w: "overflows m s = s\<lparr>Back_Reverse_counter := of_nat m,
                            g_TIMER0_Overflow := g_TIMER0_Overflow s + of_nat m\<rparr>"
    using unwind_wait [OF u(1-3), of m] by (simp add: m_def)
  have th: "\<not> (of_nat m + 1 :: uint16) < ovfCounts s"
    using unwind_threshold [of "ovfCounts s"] by (simp add: m_def)
  show ?thesis
    unfolding m1 overflows_Suc w
    using u assms(2) th
    by (simp add: overflow_def vector_11_def Back_Reverse_pop reapply_def driver_defs
          algebra_simps)
qed

lemma unwind_fire_empty:
  assumes "unwinding s" "top s = 0"
  shows "overflows (max 1 (unat (ovfCounts s))) s =
           WDT_RESET_MCU (MOTOR_BothStop
             (s\<lparr>g_TIMER0_Overflow :=
                  g_TIMER0_Overflow s + of_nat (max 1 (unat (ovfCounts s)) - 1)\<rparr>))"
    and "\<not> wdt_reset (overflows (max 1 (unat (ovfCounts s)) - 1) s)"
proof -
  define m where "m = max 1 (unat (ovfCounts s)) - 1"
  have u: "g_TIMER0_OVF_CallBack s = CB_Back_Reverse" "\<not> wdt_reset s"
    "Back_Reverse_counter s = 0"
    using assms by (simp_all add: unwinding_def)
  have m1: "max 1 (unat (ovfCounts s)) = Suc m" by (simp add: m_def)
  have w: "overflows m s = s\<lparr>Back_Reverse_counter := of_nat m,
                            g_TIMER0_Overflow := g_TIMER0_Overflow s + of_nat m\<rparr>"
    using unwind_wait [OF u(1-3), of m] by (simp add: m_def)
  have th: "\<not> (of_nat m + 1 :: uint16) < ovfCounts s"
    using unwind_threshold [of "ovfCounts s"] by (simp add: m_def)
  show "overflows (max 1 (unat (ovfCounts s))) s =
           WDT_RESET_MCU (MOTOR_BothStop
             (s\<lparr>g_TIMER0_Overflow :=
                  g_TIMER0_Overflow s + of_nat (max 1 (unat (ovfCounts s)) - 1)\<rparr>))"
    unfolding m1 overflows_Suc w
    using u assms(2) th
    by (simp add: overflow_def vector_11_def Back_Reverse_empty driver_defs m_def)
  show "\<not> wdt_reset (overflows (max 1 (unat (ovfCounts s)) - 1) s)"
    using u(2) w by (simp add: m_def)
qed


lemma log_reapply:
  "actuator_log a = actuator_log b \<Longrightarrow> actuator_log (reapply r a) = actuator_log (reapply r b)"
  by (simp add: reapply_def driver_defs)

lemma log_fold_reapply:
  "actuator_log a = actuator_log b \<Longrightarrow>
   actuator_log (fold reapply rs a) = actuator_log (fold reapply rs b)"
proof (induction rs arbitrary: a b)
  case Nil
  then show ?case by simp
next
  case (Cons r rs)
  have "actuator_log (reapply r a) = actuator_log (reapply r b)"
    using Cons.prems by (rule log_reapply)
  then have "actuator_log (fold reapply rs (reapply r a))
               = actuator_log (fold reapply rs (reapply r b))"
    by (rule Cons.IH)
  then show ?case by simp
qed

lemma log_stop_fold_reapply:
  "actuator_log a = actuator_log b \<Longrightarrow>
   actuator_log (MOTOR_BothStop (fold reapply rs a))
     = actuator_log (MOTOR_BothStop (fold reapply rs b))"
  using log_fold_reapply [of a b rs] by (simp add: MOTOR_BothStop_def)

lemma unat_top_pred:
  assumes "unat (t :: uint8) = Suc k"
  shows "unat (t - 1) = k"
proof -
  have "t \<noteq> 0" using assms by auto
  then have "unat (t - 1) = unat t - 1" by (rule unat_minus_one)
  with assms show ?thesis by simp
qed

lemma hold_pos: "0 < hold r"
  by (simp add: hold_def)

lemma unwind_total:
  "unwinding s \<Longrightarrow> unat (top s) = n \<Longrightarrow> length (stack s) = MAX_MOVES \<Longrightarrow>
   wdt_reset (overflows (max 1 (unat (ovfCounts s)) + sum_list (map hold (take n (stack s)))) s) \<and>
   \<not> wdt_reset
       (overflows (max 1 (unat (ovfCounts s)) + sum_list (map hold (take n (stack s))) - 1) s) \<and>
   actuator_log
       (overflows (max 1 (unat (ovfCounts s)) + sum_list (map hold (take n (stack s)))) s)
     = actuator_log (MOTOR_BothStop (fold reapply (rev (take n (stack s))) s))"
proof (induction n arbitrary: s)
  case 0
  then have t0: "top s = 0" by (simp add: unat_eq_zero)
  show ?case
    using unwind_fire_empty [OF "0.prems"(1) t0]
    by (simp add: driver_defs)
next
  case (Suc k)
  define m where "m = max 1 (unat (ovfCounts s))"
  define r where "r = stack s ! unat (top s - 1)"
  define s' where "s' = overflows m s"
  have tn: "top s \<noteq> 0" using Suc.prems(2) by auto
  have k: "unat (top s - 1) = k" using Suc.prems(2) by (rule unat_top_pred)
  have klen: "k < length (stack s)"
    using Suc.prems(3) unsigned_less [of "top s - 1", where ?'a = nat] k by simp
  have u: "g_TIMER0_OVF_CallBack s = CB_Back_Reverse" "\<not> wdt_reset s"
    "Back_Reverse_counter s = 0" "reversed_mode s \<noteq> STOP"
    using Suc.prems(1) tn by (simp_all add: unwinding_def)
  have e: "s' = (reapply r
             (s\<lparr>top := top s - 1, ovfCounts := rv_ovfs r, TCNT0 := rv_tcnt r\<rparr>))
           \<lparr>g_TIMER0_Overflow := g_TIMER0_Overflow s + of_nat m\<rparr>"
    unfolding s'_def m_def r_def using Suc.prems(1) tn by (rule unwind_fire_pop)
  have f: "unwinding s'" "unat (top s') = k" "stack s' = stack s"
    "max 1 (unat (ovfCounts s')) = hold r" "actuator_log s' = actuator_log (reapply r s)"
    using u k by (simp_all add: e unwinding_def reapply_def driver_defs hold_def)
  have len': "length (stack s') = MAX_MOVES" using Suc.prems(3) f(3) by simp
  define T' where "T' = hold r + sum_list (map hold (take k (stack s)))"
  have tk: "take (Suc k) (stack s) = take k (stack s) @ [r]"
    using klen k by (simp add: take_Suc_conv_app_nth r_def)
  have T: "m + sum_list (map hold (take (Suc k) (stack s))) = m + T'"
    by (simp add: tk T'_def)
  have Tpos: "0 < T'" using hold_pos [of r] by (simp add: T'_def)
  have o1: "overflows (m + T') s = overflows T' s'"
    by (simp add: overflows_add s'_def)
  have "m + T' - 1 = m + (T' - 1)" using Tpos by simp
  then have o2: "overflows (m + T' - 1) s = overflows (T' - 1) s'"
    by (simp add: overflows_add s'_def)
  have IH: "wdt_reset (overflows T' s') \<and> \<not> wdt_reset (overflows (T' - 1) s') \<and>
     actuator_log (overflows T' s')
       = actuator_log (MOTOR_BothStop (fold reapply (rev (take k (stack s))) s'))"
    unfolding T'_def using Suc.IH [OF f(1) f(2) len', unfolded f(3) f(4)] .
  have lg: "actuator_log (MOTOR_BothStop (fold reapply (rev (take k (stack s))) s'))
      = actuator_log (MOTOR_BothStop (fold reapply (rev (take (Suc k) (stack s))) s))"
    using log_stop_fold_reapply [OF f(5), of "rev (take k (stack s))"] by (simp add: tk)
  show ?case
    unfolding m_def [symmetric] T o1 o2
    using IH lg by simp
qed

subsection \<open>Recording a drive\<close>

lemma callback_cases:
  "g_TIMER0_OVF_CallBack s \<noteq> CB_Back_Reverse \<longleftrightarrow> g_TIMER0_OVF_CallBack s = CB_Check_Connection"
  by (cases "g_TIMER0_OVF_CallBack s") simp_all

lemma remote_Check_Connection:
  assumes "remote s" "g_TIMER0_OVF_CallBack (Check_Connection s) = CB_Check_Connection"
  shows "remote (Check_Connection s) \<and> stack (Check_Connection s) = stack s \<and>
         top (Check_Connection s) = top s \<and>
         reversed_mode (Check_Connection s) = reversed_mode s"
  using assms
  by (simp add: Check_Connection_def Let_def remote_def wf_def accepts_command_def
        enter_replay_def driver_defs split: if_splits)

lemma remote_TCNT0 [simp]: "remote (s\<lparr>TCNT0 := v\<rparr>) = remote s"
  by (simp add: remote_def accepts_command_def)

lemma remote_tick:
  assumes "remote s" "g_TIMER0_OVF_CallBack (step Tick s) = CB_Check_Connection"
  shows "remote (step Tick s) \<and> stack (step Tick s) = stack s \<and>
         top (step Tick s) = top s \<and> reversed_mode (step Tick s) = reversed_mode s"
proof (cases "TIMER0_clocked s \<and> TCNT0 s + 1 = 0")
  case False
  with assms(1) show ?thesis
    by (auto simp add: TIMER0_tick_def Let_def)
next
  case True
  define a where "a = s\<lparr>TCNT0 := 0\<rparr>"
  have nr: "\<not> wdt_reset s" and cb: "g_TIMER0_OVF_CallBack s = CB_Check_Connection"
    using assms(1) by (simp_all add: remote_def accepts_command_def)
  have ra: "remote a" using assms(1) by (simp add: a_def)
  have nra: "\<not> wdt_reset (Check_Connection a)"
    using nr by (simp add: a_def Check_Connection_def Let_def enter_replay_def Save_Move_def
        driver_defs)
  have e: "step Tick s = (Check_Connection a)
             \<lparr>g_TIMER0_Overflow := g_TIMER0_Overflow (Check_Connection a) + 1\<rparr>"
    using True nr cb nra by (simp add: TIMER0_tick_def Let_def vector_11_def a_def)
  have "g_TIMER0_OVF_CallBack (Check_Connection a) = CB_Check_Connection"
    using assms(2) by (simp add: e del: step.simps)
  from remote_Check_Connection [OF ra this] assms(1) show ?thesis
    by (simp add: e a_def remote_def wf_def accepts_command_def del: step.simps)
qed

lemma remote_ticks:
  "remote s \<Longrightarrow> g_TIMER0_OVF_CallBack (ticks d s) = CB_Check_Connection \<Longrightarrow>
   remote (ticks d s) \<and> stack (ticks d s) = stack s \<and>
   top (ticks d s) = top s \<and> reversed_mode (ticks d s) = reversed_mode s"
proof (induction d)
  case 0
  then show ?case by simp
next
  case (Suc d)
  have "g_TIMER0_OVF_CallBack (ticks d s) = CB_Check_Connection"
    using Suc.prems(2) callback_sticky_step [of "ticks d s" Tick]
    by (auto simp add: ticks_Suc callback_cases [symmetric] simp del: step.simps)
  with Suc have IH: "remote (ticks d s)" "stack (ticks d s) = stack s"
    "top (ticks d s) = top s" "reversed_mode (ticks d s) = reversed_mode s"
    by simp_all
  from remote_tick [OF IH(1)] Suc.prems(2) IH(2-4) show ?case
    by (simp add: ticks_Suc del: step.simps)
qed

lemma drive_append: "drive (xs @ ys) s = drive ys (drive xs s)"
  by (induction xs arbitrary: s) auto

lemma spec_inverse_nonstop: "c \<in> nonstop_motions \<Longrightarrow> spec_inverse c \<noteq> STOP"
  by (auto simp add: nonstop_motions_def spec_inverse_def)

lemma nonstop_motion: "c \<in> nonstop_motions \<Longrightarrow> c \<in> motion_commands"
  by (auto simp add: nonstop_motions_def motion_commands_def)

lemma drive_inv_boot: "drive_inv [] (boot w p)"
  by (simp add: drive_inv_def remote_boot) (simp add: boot_def)

lemma drive_inv_snoc:
  assumes inv: "drive_inv script s"
    and c: "c \<in> nonstop_motions"
    and ns: "fst ` set script \<subseteq> nonstop_motions"
    and len: "length script < 256"
    and cb: "g_TIMER0_OVF_CallBack (ticks d (step (Rx c) s)) = CB_Check_Connection"
  shows "drive_inv (script @ [(c, d)]) (ticks d (step (Rx c) s))"
proof -
  define s1 where "s1 = step (Rx c) s"
  have r: "remote s" using inv by (simp add: drive_inv_def)
  have slen: "length (stack s) = 300" using r by (simp add: remote_def wf_def)
  note E = motion_cmd_effect [OF r nonstop_motion [OF c], folded s1_def]
  have r1: "remote s1" using E by simp
  note K = remote_ticks [OF r1 cb [folded s1_def]]
  have m1: "reversed_mode s1 = spec_inverse c" using E by simp
  show ?thesis
  proof (cases "script = []")
    case True
    then have "reversed_mode s = STOP" "unat (top s) = 0"
      using inv by (simp_all add: drive_inv_def)
    with E K True show ?thesis
      by (simp add: drive_inv_def s1_def [symmetric] del: step.simps)
  next
    case False
    then have lastin: "fst (last script) \<in> nonstop_motions"
      using ns last_in_set by blast
    have m: "reversed_mode s = spec_inverse (fst (last script))"
      and t: "unat (top s) = length script - 1"
      and sl: "\<forall>i < length script - 1.
                 rv_mode (stack s ! i) = ucast (spec_inverse (fst (script ! i)))"
      using inv False by (simp_all add: drive_inv_def)
    have mns: "reversed_mode s \<noteq> STOP" using spec_inverse_nonstop [OF lastin] m by simp
    have t1: "top s1 = top s + 1" using E mns by simp
    have "unat (top s) < 255" using t len False by (cases script) simp_all
    then have ut: "unat (top s + 1) = length script"
      using t False by (simp add: unat_word_ariths)
    have st1: "stack s1 = (stack s)[unat (top s) :=
                   \<lparr>rv_mode = ucast (reversed_mode s), rv_gear = ucast (gear s),
                    rv_ovfs = g_TIMER0_Overflow s, rv_tcnt = TCNT0 s\<rparr>]"
      using E mns by simp
    have slots: "rv_mode (stack s1 ! i) = ucast (spec_inverse (fst ((script @ [(c, d)]) ! i)))"
      if "i < length script" for i
    proof (cases "i = length script - 1")
      case True
      then have "stack s1 ! i = \<lparr>rv_mode = ucast (reversed_mode s), rv_gear = ucast (gear s),
                    rv_ovfs = g_TIMER0_Overflow s, rv_tcnt = TCNT0 s\<rparr>"
        using st1 t slen that top_lt_MAX_MOVES [of "top s"] by simp
      moreover have "(script @ [(c, d)]) ! i = last script"
        using True that False by (simp add: nth_append last_conv_nth)
      ultimately show ?thesis using m by simp
    next
      case False
      then have "i < length script - 1" using that by simp
      moreover from this have "stack s1 ! i = stack s ! i"
        using st1 t by simp
      ultimately show ?thesis using sl that by (simp add: nth_append)
    qed
    show ?thesis
      using K m1 t1 ut slots
      by (simp add: drive_inv_def s1_def [symmetric] del: step.simps)
  qed
qed

lemma drive_inv_run:
  "fst ` set script \<subseteq> nonstop_motions \<Longrightarrow> length script \<le> 256 \<Longrightarrow>
   g_TIMER0_OVF_CallBack (drive script (boot w p)) = CB_Check_Connection \<Longrightarrow>
   drive_inv script (drive script (boot w p))"
proof (induction script rule: rev_induct)
  case Nil
  show ?case using drive_inv_boot by simp
next
  case (snoc x script)
  obtain c d where x: "x = (c, d)" by (cases x)
  define s where "s = drive script (boot w p)"
  have e: "drive (script @ [(c, d)]) (boot w p) = ticks d (step (Rx c) s)"
    by (simp add: drive_append s_def del: step.simps)
  have cb: "g_TIMER0_OVF_CallBack (ticks d (step (Rx c) s)) = CB_Check_Connection"
    using snoc.prems(3) unfolding x e .
  have "g_TIMER0_OVF_CallBack s = CB_Check_Connection"
    using cb callback_sticky_ticks [of "step (Rx c) s" d] callback_sticky_step [of s "Rx c"]
    by (auto simp add: callback_cases [symmetric] simp del: step.simps)
  then have "drive_inv script s"
    using snoc.IH snoc.prems(1,2) by (simp add: s_def)
  then have "drive_inv (script @ [(c, d)]) (ticks d (step (Rx c) s))"
    using snoc.prems(1,2) cb by (intro drive_inv_snoc) (simp_all add: x)
  then show ?case unfolding x e .
qed


lemma reverse_cmd_effect:
  assumes "remote s"
  shows "g_TIMER0_OVF_CallBack (step (Rx REVERSE) s) = CB_Back_Reverse \<and>
         \<not> wdt_reset (step (Rx REVERSE) s) \<and>
         Back_Reverse_counter (step (Rx REVERSE) s) = 0 \<and>
         ovfCounts (step (Rx REVERSE) s) = 0 \<and>
         reversed_mode (step (Rx REVERSE) s) = reversed_mode s \<and>
         top (step (Rx REVERSE) s) = (if reversed_mode s = STOP then top s else top s + 1) \<and>
         stack (step (Rx REVERSE) s) =
           (if reversed_mode s = STOP then stack s
            else (stack s)[unat (top s) :=
                   \<lparr>rv_mode = ucast (reversed_mode s), rv_gear = ucast (gear s),
                    rv_ovfs = g_TIMER0_Overflow s, rv_tcnt = TCNT0 s\<rparr>])"
proof -
  have w: "wf s" and a: "accepts_command s" using assms by (simp_all add: remote_def)
  have b: "uart_rx_buffer (received REVERSE s) ! 0 = REVERSE" using w by (rule received_byte)
  have e: "step (Rx REVERSE) s = UART_Get_Cmd (received REVERSE s)"
    using w a by (rule step_Rx_cmd)
  have f: "remote (received REVERSE s)" "reversed_mode (received REVERSE s) = reversed_mode s"
    "top (received REVERSE s) = top s" "stack (received REVERSE s) = stack s"
    "TCNT0 (received REVERSE s) = TCNT0 s"
    "g_TIMER0_Overflow (received REVERSE s) = g_TIMER0_Overflow s"
    "gear (received REVERSE s) = gear s"
    using assms by (simp_all add: received_def remote_def accepts_command_def wf_def)
  define a where "a = received REVERSE s"
  have "g_TIMER0_OVF_CallBack (UART_Get_Cmd a) = CB_Back_Reverse \<and>
         \<not> wdt_reset (UART_Get_Cmd a) \<and>
         Back_Reverse_counter (UART_Get_Cmd a) = 0 \<and>
         ovfCounts (UART_Get_Cmd a) = 0 \<and>
         reversed_mode (UART_Get_Cmd a) = reversed_mode a \<and>
         top (UART_Get_Cmd a) = (if reversed_mode a = STOP then top a else top a + 1) \<and>
         stack (UART_Get_Cmd a) =
           (if reversed_mode a = STOP then stack a
            else (stack a)[unat (top a) :=
                   \<lparr>rv_mode = ucast (reversed_mode a), rv_gear = ucast (gear a),
                    rv_ovfs = g_TIMER0_Overflow a, rv_tcnt = TCNT0 a\<rparr>])"
    using f(1) b unfolding a_def [symmetric]
    by (simp add: UART_Get_Cmd_def Let_def Save_Move_def enter_replay_def driver_defs
          remote_def accepts_command_def top_lt_MAX_MOVES)
  then show ?thesis
    unfolding e a_def f(2-7) .
qed

text \<open>
  What the recording and the replay do in general. Take any sequence of at most 255
  motion commands, none of them \<open>STOP\<close>, each held for any number of timer ticks,
  received from boot while the link watchdog has not tripped, and followed by a reverse
  request. The stack then holds one record per command, the \<open>i\<close>-th with the inverse of
  the \<open>i\<close>-th command in its mode field. The replay pops them most recent first and
  reapplies the gear and the mode field of each; it holds each record for as many timer
  overflows as the record's overflow count (one when that count is zero), the first pop
  coming with the first overflow, and with the overflow that ends the last record's hold
  it stops the motors and resets the controller.
\<close>

lemma record_and_unwind:
  assumes "fst ` set script \<subseteq> nonstop_motions" "length script \<le> 255"
    "g_TIMER0_OVF_CallBack (drive script (boot w p)) = CB_Check_Connection"
  shows "let s = step (Rx REVERSE) (drive script (boot w p));
             N = length script;
             total = 1 + sum_list (map hold (take N (stack s)))
         in unat (top s) = N \<and>
            (\<forall>i<N. rv_mode (stack s ! i) = ucast (spec_inverse (fst (script ! i)))) \<and>
            wdt_reset (overflows total s) \<and> \<not> wdt_reset (overflows (total - 1) s) \<and>
            actuator_log (overflows total s)
              = actuator_log (MOTOR_BothStop (fold reapply (rev (take N (stack s))) s))"
proof -
  define s0 where "s0 = drive script (boot w p)"
  define s where "s = step (Rx REVERSE) s0"
  define N where "N = length script"
  have D: "drive_inv script s0"
    unfolding s0_def using assms by (intro drive_inv_run) simp_all
  then have r: "remote s0" by (simp add: drive_inv_def)
  have slen: "length (stack s0) = 300" using r by (simp add: remote_def wf_def)
  note R = reverse_cmd_effect [OF r, folded s_def]
  have top_modes: "unat (top s) = N \<and>
      (\<forall>i<N. rv_mode (stack s ! i) = ucast (spec_inverse (fst (script ! i)))) \<and>
      (top s \<noteq> 0 \<longrightarrow> reversed_mode s \<noteq> STOP) \<and> length (stack s) = MAX_MOVES"
  proof (cases "script = []")
    case True
    then have "reversed_mode s0 = STOP" "unat (top s0) = 0"
      using D by (simp_all add: drive_inv_def)
    with R True slen show ?thesis
      by (simp add: N_def unat_eq_zero)
  next
    case False
    then have lastin: "fst (last script) \<in> nonstop_motions"
      using assms(1) last_in_set by blast
    have m: "reversed_mode s0 = spec_inverse (fst (last script))"
      and t: "unat (top s0) = N - 1"
      and sl: "\<forall>i < N - 1. rv_mode (stack s0 ! i) = ucast (spec_inverse (fst (script ! i)))"
      using D False by (simp_all add: drive_inv_def N_def)
    have mns: "reversed_mode s0 \<noteq> STOP" using spec_inverse_nonstop [OF lastin] m by simp
    have Npos: "0 < N" using False by (simp add: N_def)
    have "unat (top s0) < 255" using t assms(2) Npos by (simp add: N_def)
    then have ut: "unat (top s0 + 1) = N"
      using t Npos by (simp add: unat_word_ariths)
    have st: "stack s = (stack s0)[N - 1 :=
                   \<lparr>rv_mode = ucast (reversed_mode s0), rv_gear = ucast (gear s0),
                    rv_ovfs = g_TIMER0_Overflow s0, rv_tcnt = TCNT0 s0\<rparr>]"
      using R mns t by simp
    have slots: "rv_mode (stack s ! i) = ucast (spec_inverse (fst (script ! i)))"
      if "i < N" for i
    proof (cases "i = N - 1")
      case True
      then have "rv_mode (stack s ! i) = ucast (reversed_mode s0)"
        using st slen that assms(2) by (simp add: N_def)
      moreover have "script ! i = last script"
        using True False by (simp add: last_conv_nth N_def)
      ultimately show ?thesis using m by simp
    next
      case False
      then have "i < N - 1" using that by simp
      then show ?thesis using sl st by simp
    qed
    show ?thesis
      using R mns ut slots slen st by simp
  qed
  have u: "unwinding s"
    unfolding unwinding_def using R top_modes by blast
  have o: "max 1 (unat (ovfCounts s)) = 1" using R by simp
  from unwind_total [OF u, of N] top_modes
  have "wdt_reset (overflows (1 + sum_list (map hold (take N (stack s)))) s) \<and>
        \<not> wdt_reset (overflows (1 + sum_list (map hold (take N (stack s))) - 1) s) \<and>
        actuator_log (overflows (1 + sum_list (map hold (take N (stack s)))) s)
          = actuator_log (MOTOR_BothStop (fold reapply (rev (take N (stack s))) s))"
    unfolding o by blast
  with top_modes show ?thesis
    unfolding Let_def s_def [symmetric] s0_def [symmetric] N_def [symmetric] by blast
qed

subsection \<open>Counting timer ticks\<close>

lemma ticks_add: "ticks (m + n) s = ticks n (ticks m s)"
  by (metis add.commute comp_apply funpow_add ticks_def)

lemma ticks_idle: "wdt_reset s \<or> \<not> TIMER0_clocked s \<Longrightarrow> ticks n s = s"
  by (induction n) (auto simp add: ticks_Suc TIMER0_tick_def)

lemma unat_TCNT0_add:
  "unat (t :: uint8) + k < 256 \<Longrightarrow> unat (t + of_nat k) = unat t + k"
  by (simp add: unat_word_ariths unat_of_nat)

lemma ticks_below:
  assumes "TIMER0_clocked s" "\<not> wdt_reset s"
  shows "unat (TCNT0 s) + n < 256 \<Longrightarrow> ticks n s = s\<lparr>TCNT0 := TCNT0 s + of_nat n\<rparr>"
proof (induction n)
  case 0
  then show ?case by simp
next
  case (Suc n)
  then have IH: "ticks n s = s\<lparr>TCNT0 := TCNT0 s + of_nat n\<rparr>" by simp
  have "unat (TCNT0 s + of_nat (Suc n)) = unat (TCNT0 s) + Suc n"
    using Suc.prems by (rule unat_TCNT0_add)
  then have nz: "TCNT0 s + of_nat (Suc n) \<noteq> 0"
    by (metis add_is_0 nat.distinct(1) unat_eq_zero)
  show ?case
    using assms nz by (simp add: ticks_Suc IH TIMER0_tick_def Let_def algebra_simps)
qed

lemma ticks_wrap:
  assumes "TIMER0_clocked s" "\<not> wdt_reset s"
  shows "ticks (256 - unat (TCNT0 s)) s = vector_11 (s\<lparr>TCNT0 := 0\<rparr>)"
proof -
  define k where "k = 255 - unat (TCNT0 s)"
  have lt: "unat (TCNT0 s) < 256" using unsigned_less [of "TCNT0 s", where ?'a = nat] by simp
  then have k1: "256 - unat (TCNT0 s) = Suc k" by (simp add: k_def)
  have b: "unat (TCNT0 s) + k < 256" using lt by (simp add: k_def)
  have "unat (TCNT0 s + of_nat k) = 255"
    using unat_TCNT0_add [OF b] lt by (simp add: k_def)
  then have "TCNT0 s + of_nat k = 255"
    by (simp add: word_unat_eq_iff)
  then have "ticks k s = s\<lparr>TCNT0 := 255\<rparr>"
    using ticks_below [OF assms b] by simp
  moreover have z: "(256 :: uint8) = 0" by (simp add: word_unat_eq_iff)
  ultimately show ?thesis
    using assms by (simp add: k1 ticks_Suc TIMER0_tick_def Let_def z)
qed

lemma ticks_split:
  "ticks n s =
     (if n = 0 \<or> wdt_reset s \<or> \<not> TIMER0_clocked s then s
      else if n < 256 - unat (TCNT0 s) then s\<lparr>TCNT0 := TCNT0 s + of_nat n\<rparr>
      else ticks (n - (256 - unat (TCNT0 s))) (vector_11 (s\<lparr>TCNT0 := 0\<rparr>)))"
proof -
  have lt: "unat (TCNT0 s) < 256" using unsigned_less [of "TCNT0 s", where ?'a = nat] by simp
  show ?thesis
  proof (cases "n = 0 \<or> wdt_reset s \<or> \<not> TIMER0_clocked s")
    case True
    then show ?thesis using ticks_idle [of s n] by auto
  next
    case False
    then have c: "TIMER0_clocked s" "\<not> wdt_reset s" by simp_all
    show ?thesis
    proof (cases "n < 256 - unat (TCNT0 s)")
      case True
      then have "unat (TCNT0 s) + n < 256" by simp
      from ticks_below [OF c this] False True show ?thesis by simp
    next
      case ge: False
      then have "n = (256 - unat (TCNT0 s)) + (n - (256 - unat (TCNT0 s)))" by simp
      then have "ticks n s = ticks (n - (256 - unat (TCNT0 s))) (ticks (256 - unat (TCNT0 s)) s)"
        by (metis ticks_add)
      with ticks_wrap [OF c] False ge show ?thesis by simp
    qed
  qed
qed

text \<open>
  C1 (the code at the failing input). FORWARD is held for 300 timer ticks and STEER_LEFT
  for 100, then the reverse request arrives; no \<open>STOP\<close> is involved and the stack is far
  from full. The two records are written as intended: the inverse modes, and times of
  \<open>1 * 256 + 44 = 300\<close> and \<open>0 * 256 + 100 = 100\<close> ticks. The replay does not drive them
  back:

    \<^item> the first tick pops the STEER_LEFT record and calls \<^verbatim>\<open>MOTOR_SET_Direction\<close> with
      its mode field 4, which is \<^verbatim>\<open>MOTOR_TURN_LEFT\<close>: the vehicle turns left again, not
      right;
    \<^item> \<^verbatim>\<open>Back_Reverse\<close> loads the recorded timer value 100 as a preload, so that record
      is held for \<open>256 - 100 = 156\<close> ticks, not 100;
    \<^item> tick 157 pops the FORWARD record, whose mode field 2 is \<^verbatim>\<open>MOTOR_STOP\<close>: the
      vehicle stands still instead of driving backward, and with overflow count 1 and
      preload 44 it does so for \<open>256 - 44 = 212\<close> ticks, not 300;
    \<^item> tick 369 finds the stack empty, stops the motors and resets the controller, where
      the recorded intervals add up to 400 ticks.
\<close>

theorem C1_round_trip_diverges:
  "stack (step (Rx REVERSE) (drive [(FORWARD, 300), (STEER_LEFT, 100)] (boot 1000 0))) ! 0
     = \<lparr>rv_mode = ucast (spec_inverse FORWARD), rv_gear = 1, rv_ovfs = 1, rv_tcnt = 44\<rparr> \<and>
   stack (step (Rx REVERSE) (drive [(FORWARD, 300), (STEER_LEFT, 100)] (boot 1000 0))) ! 1
     = \<lparr>rv_mode = ucast (spec_inverse STEER_LEFT), rv_gear = 1, rv_ovfs = 0, rv_tcnt = 100\<rparr> \<and>
   top (step (Rx REVERSE) (drive [(FORWARD, 300), (STEER_LEFT, 100)] (boot 1000 0))) = 2 \<and>
   actuator_log (step (Rx REVERSE) (drive [(FORWARD, 300), (STEER_LEFT, 100)] (boot 1000 0)))
     = [Motor BothForward, Motor TurnLeft, Motor BothStop] \<and>
   actuator_log (ticks 1 (step (Rx REVERSE)
       (drive [(FORWARD, 300), (STEER_LEFT, 100)] (boot 1000 0))))
     = [Motor BothForward, Motor TurnLeft, Motor BothStop, Speed 51, Motor TurnLeft] \<and>
   actuator_log (ticks 156 (step (Rx REVERSE)
       (drive [(FORWARD, 300), (STEER_LEFT, 100)] (boot 1000 0))))
     = [Motor BothForward, Motor TurnLeft, Motor BothStop, Speed 51, Motor TurnLeft] \<and>
   actuator_log (ticks 157 (step (Rx REVERSE)
       (drive [(FORWARD, 300), (STEER_LEFT, 100)] (boot 1000 0))))
     = [Motor BothForward, Motor TurnLeft, Motor BothStop, Speed 51, Motor TurnLeft,
        Speed 51, Motor BothStop] \<and>
   actuator_log (ticks 368 (step (Rx REVERSE)
       (drive [(FORWARD, 300), (STEER_LEFT, 100)] (boot 1000 0))))
     = [Motor BothForward, Motor TurnLeft, Motor BothStop, Speed 51, Motor TurnLeft,
        Speed 51, Motor BothStop] \<and>
   \<not> wdt_reset (ticks 368 (step (Rx REVERSE)
       (drive [(FORWARD, 300), (STEER_LEFT, 100)] (boot 1000 0)))) \<and>
   wdt_reset (ticks 369 (step (Rx REVERSE)
       (drive [(FORWARD, 300), (STEER_LEFT, 100)] (boot 1000 0)))) \<and>
   actuator_log (ticks 369 (step (Rx REVERSE)
       (drive [(FORWARD, 300), (STEER_LEFT, 100)] (boot 1000 0))))
     = [Motor BothForward, Motor TurnLeft, Motor BothStop, Speed 51, Motor TurnLeft,
        Speed 51, Motor BothStop, Motor BothStop]"
  by (simp add: ticks_split spec_inverse_def boot_def irq_defs app_defs driver_defs Let_def
        word_le_nat_alt word_less_nat_alt)

end
